theory Spec2Isabelle
  imports Complex_Main "HOL-Library.Char_ord" "HOL-Library.List_Lexorder"
begin

section \<open>Text: characters and the string operations the code calls\<close>

text \<open>
  A transcript is a Python \<open>str\<close>. It is modelled as a \<open>string\<close> whose characters are the
  code points below 256; the character classes below are the ones Python's \<open>str\<close> methods and
  the \<open>re\<close> module use on these code points.
\<close>

definition code :: "char \<Rightarrow> int" where
  "code c = of_char c"

definition in_range :: "int \<Rightarrow> int \<Rightarrow> char \<Rightarrow> bool" where
  "in_range lo hi c = (lo \<le> code c \<and> code c \<le> hi)"

definition isspace :: "char \<Rightarrow> bool" where
  \<comment> \<open>\<open>str.isspace\<close>, also the class \<open>\s\<close>: tab, LF, VT, FF, CR, FS, GS, RS, US, space, NEL, NBSP\<close>
  "isspace c = (in_range 9 13 c \<or> in_range 28 32 c \<or> code c = 133 \<or> code c = 160)"

definition isupper_ascii :: "char \<Rightarrow> bool" where
  "isupper_ascii c = in_range 65 90 c"

definition islower_ascii :: "char \<Rightarrow> bool" where
  "islower_ascii c = in_range 97 122 c"

definition isalpha_ascii :: "char \<Rightarrow> bool" where
  \<comment> \<open>the class \<open>[a-zA-Z]\<close>\<close>
  "isalpha_ascii c = (islower_ascii c \<or> isupper_ascii c)"

definition isword :: "char \<Rightarrow> bool" where
  \<comment> \<open>the class \<open>\w\<close>: alphanumeric (\<open>str.isalnum\<close>) or the underscore\<close>
  "isword c = (isalpha_ascii c \<or> in_range 48 57 c \<or> code c = 95
      \<or> code c = 170 \<or> code c = 178 \<or> code c = 179 \<or> code c = 181 \<or> code c = 185
      \<or> code c = 186 \<or> in_range 188 190 c
      \<or> in_range 192 214 c \<or> in_range 216 246 c \<or> in_range 248 255 c)"

definition chr_lower :: "char \<Rightarrow> char" where
  \<comment> \<open>\<open>str.lower\<close> on one character: A-Z and the Latin-1 capitals move up by 32\<close>
  "chr_lower c = (if isupper_ascii c \<or> in_range 192 214 c \<or> in_range 216 222 c
                  then char_of (code c + 32) else c)"

definition chr_upper :: "char \<Rightarrow> char" where
  \<comment> \<open>the inverse of \<open>chr_lower\<close> on its image; used for case-insensitive matching only\<close>
  "chr_upper c = (if islower_ascii c \<or> in_range 224 246 c \<or> in_range 248 254 c
                  then char_of (code c - 32) else c)"

definition str_lower :: "string \<Rightarrow> string" where
  "str_lower s = map chr_lower s"

definition str_strip :: "string \<Rightarrow> string" where
  \<comment> \<open>\<open>s.strip()\<close>\<close>
  "str_strip s = rev (dropWhile isspace (rev (dropWhile isspace s)))"

fun words_acc :: "string \<Rightarrow> string \<Rightarrow> string list" where
  "words_acc cur [] = (if cur = [] then [] else [rev cur])"
| "words_acc cur (c # cs) =
     (if isspace c then (if cur = [] then words_acc [] cs else rev cur # words_acc [] cs)
      else words_acc (c # cur) cs)"

definition str_split :: "string \<Rightarrow> string list" where
  \<comment> \<open>\<open>s.split()\<close>: the maximal runs of non-whitespace characters\<close>
  "str_split s = words_acc [] s"

fun split_on :: "char \<Rightarrow> string \<Rightarrow> string list" where
  \<comment> \<open>\<open>s.split(d)\<close> for a one-character separator: empty fields are kept\<close>
  "split_on d [] = [[]]"
| "split_on d (c # cs) =
     (if c = d then [] # split_on d cs
      else (case split_on d cs of [] \<Rightarrow> [[c]] | f # fs \<Rightarrow> (c # f) # fs))"

fun starts_with :: "string \<Rightarrow> string \<Rightarrow> bool" where
  "starts_with s [] = True"
| "starts_with [] (p # ps) = False"
| "starts_with (c # cs) (p # ps) = (c = p \<and> starts_with cs ps)"

fun str_contains :: "string \<Rightarrow> string \<Rightarrow> bool" where
  \<comment> \<open>\<open>p in s\<close>: \<open>p\<close> occurs in \<open>s\<close> as a contiguous substring\<close>
  "str_contains [] p = (p = [])"
| "str_contains (c # cs) p = (starts_with (c # cs) p \<or> str_contains cs p)"

fun str_find :: "string \<Rightarrow> string \<Rightarrow> nat option" where
  \<comment> \<open>\<open>s.find(p)\<close>: the first index where \<open>p\<close> occurs, \<open>None\<close> for Python's -1\<close>
  "str_find [] p = (if p = [] then Some 0 else None)"
| "str_find (c # cs) p =
     (if starts_with (c # cs) p then Some 0 else map_option Suc (str_find cs p))"

definition slice_list :: "nat \<Rightarrow> nat \<Rightarrow> 'a list \<Rightarrow> 'a list" where
  \<comment> \<open>\<open>xs[i:j]\<close> for non-negative indices\<close>
  "slice_list i j xs = take (j - i) (drop i xs)"

definition slice :: "nat \<Rightarrow> nat \<Rightarrow> string \<Rightarrow> string" where
  \<comment> \<open>\<open>s[i:j]\<close> on a string\<close>
  "slice i j s = slice_list i j s"

section \<open>Regular expressions: the part of Python's \<open>re\<close> the code uses\<close>

text \<open>
  The patterns of the source are kept as syntax trees and run by a backtracking matcher that
  returns the possible ends of a match in the order Python tries them: the head of the list is
  the match \<open>re\<close> reports.
\<close>

datatype citem = CChar char | CRange char char | CSpace | CWord

datatype regex =
    Eps
  | Lit char
  | Dot
  | Cls "citem list"
  | Seq regex regex
  | Alt regex regex
  | Star regex
  | Lazy regex
  | Grp nat regex
  | Bol
  | Wordb

record flags =
  ignorecase :: bool
  multiline :: bool

definition no_flags :: flags where
  "no_flags = \<lparr>ignorecase = False, multiline = False\<rparr>"

definition IGNORECASE :: flags where
  "IGNORECASE = \<lparr>ignorecase = True, multiline = False\<rparr>"

definition IGNORECASE_MULTILINE :: flags where
  "IGNORECASE_MULTILINE = \<lparr>ignorecase = True, multiline = True\<rparr>"

text \<open>A matcher state: the text before the position (reversed), the text from the position
  on, and the groups captured so far (latest binding first).\<close>

type_synonym mstate = "string \<times> string \<times> (nat \<times> string) list"

definition plus :: "regex \<Rightarrow> regex" where
  \<comment> \<open>\<open>r+\<close>\<close>
  "plus r = Seq r (Star r)"

fun lit :: "string \<Rightarrow> regex" where
  \<comment> \<open>a literal word\<close>
  "lit [] = Eps"
| "lit [c] = Lit c"
| "lit (c # cs) = Seq (Lit c) (lit cs)"

fun alts :: "regex list \<Rightarrow> regex" where
  \<comment> \<open>\<open>(?:a|b|c)\<close>\<close>
  "alts [] = Cls []"
| "alts [r] = r"
| "alts (r # rs) = Alt r (alts rs)"

fun item_has :: "citem \<Rightarrow> char \<Rightarrow> bool" where
  "item_has (CChar x) c = (c = x)"
| "item_has (CRange a b) c = (code a \<le> code c \<and> code c \<le> code b)"
| "item_has CSpace c = isspace c"
| "item_has CWord c = isword c"

definition cls_has :: "flags \<Rightarrow> citem list \<Rightarrow> char \<Rightarrow> bool" where
  "cls_has fl items c =
     (if ignorecase fl
      then list_ex (\<lambda>i. item_has i c \<or> item_has i (chr_lower c) \<or> item_has i (chr_upper c)) items
      else list_ex (\<lambda>i. item_has i c) items)"

definition lit_has :: "flags \<Rightarrow> char \<Rightarrow> char \<Rightarrow> bool" where
  "lit_has fl x c = (if ignorecase fl then chr_lower c = chr_lower x else c = x)"

definition one_char :: "(char \<Rightarrow> bool) \<Rightarrow> mstate \<Rightarrow> mstate list" where
  "one_char ok st =
     (case st of (pre, rest, caps) \<Rightarrow>
        (case rest of [] \<Rightarrow> [] | c # cs \<Rightarrow> if ok c then [(c # pre, cs, caps)] else []))"

definition remaining :: "mstate \<Rightarrow> nat" where
  "remaining st = length (fst (snd st))"

definition at_bol :: "flags \<Rightarrow> mstate \<Rightarrow> bool" where
  \<comment> \<open>\<open>^\<close>: the start of the text, and under MULTILINE also right after a newline\<close>
  "at_bol fl st =
     (case fst st of [] \<Rightarrow> True | p # _ \<Rightarrow> multiline fl \<and> p = CHR 0x0A)"

definition at_wordb :: "mstate \<Rightarrow> bool" where
  \<comment> \<open>\<open>\b\<close>: exactly one of the two neighbouring positions holds a word character\<close>
  "at_wordb st =
     (case st of (pre, rest, caps) \<Rightarrow>
        (case pre of [] \<Rightarrow> False | p # _ \<Rightarrow> isword p)
        \<noteq> (case rest of [] \<Rightarrow> False | c # _ \<Rightarrow> isword c))"

definition capture :: "nat \<Rightarrow> mstate \<Rightarrow> mstate \<Rightarrow> mstate" where
  \<comment> \<open>group \<open>n\<close> opened at \<open>st0\<close> and closed at \<open>st1\<close>\<close>
  "capture n st0 st1 =
     (case st1 of (pre1, rest1, caps1) \<Rightarrow>
        (pre1, rest1, (n, rev (take (length pre1 - length (fst st0)) pre1)) # caps1))"

text \<open>Repetition. An iteration must consume a character, so the number of iterations is at
  most the length of the remaining text, which is the bound passed in by \<open>rmatch\<close>.\<close>

primrec star_greedy :: "nat \<Rightarrow> (mstate \<Rightarrow> mstate list) \<Rightarrow> mstate \<Rightarrow> mstate list" where
  "star_greedy 0 step st = [st]"
| "star_greedy (Suc k) step st =
     concat (map (star_greedy k step) (filter (\<lambda>st'. remaining st' < remaining st) (step st)))
     @ [st]"

primrec star_lazy :: "nat \<Rightarrow> (mstate \<Rightarrow> mstate list) \<Rightarrow> mstate \<Rightarrow> mstate list" where
  "star_lazy 0 step st = [st]"
| "star_lazy (Suc k) step st =
     st # concat (map (star_lazy k step) (filter (\<lambda>st'. remaining st' < remaining st) (step st)))"

primrec rmatch :: "flags \<Rightarrow> regex \<Rightarrow> mstate \<Rightarrow> mstate list" where
  "rmatch fl Eps st = [st]"
| "rmatch fl (Lit x) st = one_char (lit_has fl x) st"
| "rmatch fl Dot st = one_char (\<lambda>c. c \<noteq> CHR 0x0A) st"
| "rmatch fl (Cls items) st = one_char (cls_has fl items) st"
| "rmatch fl (Seq a b) st = concat (map (rmatch fl b) (rmatch fl a st))"
| "rmatch fl (Alt a b) st = rmatch fl a st @ rmatch fl b st"
| "rmatch fl (Star a) st = star_greedy (remaining st) (rmatch fl a) st"
| "rmatch fl (Lazy a) st = star_lazy (remaining st) (rmatch fl a) st"
| "rmatch fl (Grp n a) st = map (capture n st) (rmatch fl a st)"
| "rmatch fl Bol st = (if at_bol fl st then [st] else [])"
| "rmatch fl Wordb st = (if at_wordb st then [st] else [])"

text \<open>A match found at a position: its length and its groups.\<close>

definition match_at :: "flags \<Rightarrow> regex \<Rightarrow> string \<Rightarrow> string \<Rightarrow> (nat \<times> (nat \<times> string) list) option" where
  "match_at fl r pre rest =
     (case rmatch fl r (pre, rest, []) of
        [] \<Rightarrow> None
      | st # _ \<Rightarrow> Some (length rest - remaining st, snd (snd st)))"

definition re_match :: "flags \<Rightarrow> regex \<Rightarrow> string \<Rightarrow> (nat \<times> (nat \<times> string) list) option" where
  \<comment> \<open>\<open>re.match(r, s)\<close>: a match at the start of \<open>s\<close> only\<close>
  "re_match fl r s = match_at fl r [] s"

definition group :: "(nat \<times> string) list \<Rightarrow> nat \<Rightarrow> string" where
  \<comment> \<open>\<open>m.group(n)\<close> of a group that took part in the match\<close>
  "group caps n = (case map_of caps n of None \<Rightarrow> [] | Some s \<Rightarrow> s)"

text \<open>
  Scanning for the successive non-overlapping matches, leftmost first. \<open>skip\<close> counts the
  characters of the current match still to be passed over; \<open>pos\<close> is the index of the position.
  An empty match is followed by a step of one character.
\<close>

fun finditer_go :: "flags \<Rightarrow> regex \<Rightarrow> nat \<Rightarrow> nat \<Rightarrow> string \<Rightarrow> string
                    \<Rightarrow> (nat \<times> nat \<times> (nat \<times> string) list) list" where
  "finditer_go fl r skip pos pre [] =
     (if skip = 0 then (case match_at fl r pre [] of None \<Rightarrow> [] | Some (n, caps) \<Rightarrow> [(pos, pos, caps)])
      else [])"
| "finditer_go fl r skip pos pre (c # cs) =
     (if skip = 0 then
        (case match_at fl r pre (c # cs) of
           None \<Rightarrow> finditer_go fl r 0 (Suc pos) (c # pre) cs
         | Some (n, caps) \<Rightarrow> (pos, pos + n, caps) # finditer_go fl r (n - 1) (Suc pos) (c # pre) cs)
      else finditer_go fl r (skip - 1) (Suc pos) (c # pre) cs)"

definition re_finditer :: "flags \<Rightarrow> regex \<Rightarrow> string \<Rightarrow> (nat \<times> nat \<times> (nat \<times> string) list) list" where
  \<comment> \<open>\<open>re.finditer(r, s)\<close>: start, end and groups of each match\<close>
  "re_finditer fl r s = finditer_go fl r 0 0 [] s"

definition re_search :: "flags \<Rightarrow> regex \<Rightarrow> string \<Rightarrow> bool" where
  \<comment> \<open>the truth value of \<open>re.search(r, s)\<close>\<close>
  "re_search fl r s = (re_finditer fl r s \<noteq> [])"

definition re_findall :: "flags \<Rightarrow> regex \<Rightarrow> string \<Rightarrow> string list" where
  \<comment> \<open>\<open>re.findall(r, s)\<close> for a pattern without capturing groups: the matched texts\<close>
  "re_findall fl r s = map (\<lambda>(i, j, caps). slice i j s) (re_finditer fl r s)"

datatype ritem = RText string | RGroup nat

fun expand :: "ritem list \<Rightarrow> (nat \<times> string) list \<Rightarrow> string" where
  "expand [] caps = []"
| "expand (RText t # is) caps = t @ expand is caps"
| "expand (RGroup n # is) caps = group caps n @ expand is caps"

fun sub_go :: "ritem list \<Rightarrow> nat \<Rightarrow> string \<Rightarrow> (nat \<times> nat \<times> (nat \<times> string) list) list \<Rightarrow> string" where
  "sub_go repl pos s [] = drop pos s"
| "sub_go repl pos s ((i, j, caps) # ms) =
     slice pos i s @ expand repl caps @ sub_go repl j s ms"

definition re_sub :: "flags \<Rightarrow> regex \<Rightarrow> ritem list \<Rightarrow> string \<Rightarrow> string" where
  \<comment> \<open>\<open>re.sub(r, repl, s)\<close>: every match replaced by the expanded template\<close>
  "re_sub fl r repl s = sub_go repl 0 s (re_finditer fl r s)"

fun split_go :: "nat \<Rightarrow> string \<Rightarrow> (nat \<times> nat \<times> (nat \<times> string) list) list \<Rightarrow> string list" where
  "split_go pos s [] = [drop pos s]"
| "split_go pos s ((i, j, caps) # ms) = slice pos i s # split_go j s ms"

definition re_split :: "flags \<Rightarrow> regex \<Rightarrow> string \<Rightarrow> string list" where
  \<comment> \<open>\<open>re.split(r, s)\<close> for a pattern without capturing groups\<close>
  "re_split fl r s = split_go 0 s (re_finditer fl r s)"

section \<open>Input values and \<open>validate_transcript\<close> (utils/validators.py)\<close>

text \<open>\<open>validate_transcript\<close> takes any Python value. A dictionary is an association list from
  its string keys to its values.\<close>

datatype pyval =
    PNone
  | PStr string
  | PInt int
  | PFloat real
  | PBool bool
  | PList "pyval list"
  | PDict "(string \<times> pyval) list"

datatype exn = AttributeError string string

definition exn_str :: "exn \<Rightarrow> string" where
  \<comment> \<open>\<open>str(e)\<close>: the message of an AttributeError names the type and the attribute\<close>
  "exn_str e = (case e of AttributeError ty attr \<Rightarrow>
     [CHR 0x27] @ ty @ [CHR 0x27] @ '' object has no attribute '' @ [CHR 0x27] @ attr @ [CHR 0x27])"

fun type_name :: "pyval \<Rightarrow> string" where
  \<comment> \<open>\<open>type(v).__name__\<close>\<close>
  "type_name PNone = ''NoneType''"
| "type_name (PStr s) = ''str''"
| "type_name (PInt i) = ''int''"
| "type_name (PFloat x) = ''float''"
| "type_name (PBool b) = ''bool''"
| "type_name (PList vs) = ''list''"
| "type_name (PDict kvs) = ''dict''"

record validation =
  is_valid :: bool
  transcript :: string
  error :: "string option"
  warnings :: "string list"

definition validation_init :: validation where
  "validation_init = \<lparr>is_valid = False, transcript = [], error = None, warnings = []\<rparr>"

definition end_cls :: regex where
  \<comment> \<open>\<open>[.!?]\<close>\<close>
  "end_cls = Cls [CChar CHR ''.'', CChar CHR ''!'', CChar CHR ''?'']"

definition sentence_end :: regex where
  \<comment> \<open>\<open>[.!?]+\<close>\<close>
  "sentence_end = plus end_cls"

definition alpha_cls :: regex where
  \<comment> \<open>\<open>[a-zA-Z]\<close>\<close>
  "alpha_cls = Cls [CRange CHR ''a'' CHR ''z'', CRange CHR ''A'' CHR ''Z'']"

definition strip_method :: "pyval \<Rightarrow> exn + string" where
  \<comment> \<open>\<open>v.strip()\<close>: only a string has the method\<close>
  "strip_method v = (case v of PStr s \<Rightarrow> Inr (str_strip s)
                     | _ \<Rightarrow> Inl (AttributeError (type_name v) ''strip''))"

definition validate_text :: "pyval \<Rightarrow> exn + validation" where
  \<comment> \<open>lines 41 to 67: \<open>validate_transcript\<close> after the type dispatch\<close>
  "validate_text v =
     (case strip_method v of
        Inl e \<Rightarrow> Inl e
      | Inr cleaned \<Rightarrow>
          if cleaned = [] then Inr (validation_init\<lparr>error := Some ''Transcript is empty''\<rparr>)
          else
            let w1 = (if length cleaned < 10
                      then [''Transcript is very short (less than 10 characters)''] else []);
                w2 = (if length cleaned > 50000
                      then w1 @ [''Transcript is very long (over 50,000 characters)''] else w1)
            in if \<not> re_search no_flags alpha_cls cleaned
               then Inr (validation_init\<lparr>error := Some ''Transcript contains no alphabetic characters'',
                                          warnings := w2\<rparr>)
               else
                 let sentences = re_split no_flags sentence_end cleaned;
                     w3 = (if length sentences < 2
                           then w2 @ [''Transcript appears to have no sentence breaks''] else w2)
                 in Inr \<lparr>is_valid = True, transcript = cleaned, error = None, warnings = w3\<rparr>)"

definition validate_transcript :: "pyval \<Rightarrow> exn + validation" where
  "validate_transcript v =
     (case v of
        PNone \<Rightarrow> Inr (validation_init\<lparr>error := Some ''Transcript cannot be None''\<rparr>)
      | PStr s \<Rightarrow> validate_text v
      | PDict kvs \<Rightarrow>
          (case map_of kvs ''text'' of
             Some t \<Rightarrow> validate_text t
           | None \<Rightarrow> Inr (validation_init\<lparr>error :=
                        Some (''Transcript must be a string, received '' @ type_name v)\<rparr>))
      | _ \<Rightarrow> Inr (validation_init\<lparr>error :=
                 Some (''Transcript must be a string, received '' @ type_name v)\<rparr>))"

section \<open>The Text Normalizer (core/transcript_processor.py)\<close>

definition upper_cls :: regex where
  "upper_cls = Cls [CRange CHR ''A'' CHR ''Z'']"

definition colon_spaces :: regex where
  \<comment> \<open>\<open>:\s*\<close>\<close>
  "colon_spaces = Seq (Lit CHR '':'') (Star (Cls [CSpace]))"

definition title_speaker :: regex where
  \<comment> \<open>\<open>^([A-Z][a-zA-Z\s]+):\s*\<close>\<close>
  "title_speaker = Seq Bol (Seq (Grp 1 (Seq upper_cls
     (plus (Cls [CRange CHR ''a'' CHR ''z'', CRange CHR ''A'' CHR ''Z'', CSpace])))) colon_spaces)"

definition caps_speaker :: regex where
  \<comment> \<open>\<open>^([A-Z][A-Z\s]+):\s*\<close>\<close>
  "caps_speaker = Seq Bol (Seq (Grp 1 (Seq upper_cls
     (plus (Cls [CRange CHR ''A'' CHR ''Z'', CSpace])))) colon_spaces)"

definition word_speaker :: regex where
  \<comment> \<open>\<open>^([A-Z][a-z]+):\s*\<close>\<close>
  "word_speaker = Seq Bol (Seq (Grp 1 (Seq upper_cls
     (plus (Cls [CRange CHR ''a'' CHR ''z''])))) colon_spaces)"

definition capsword_speaker :: regex where
  \<comment> \<open>\<open>^([A-Z]+):\s*\<close>\<close>
  "capsword_speaker = Seq Bol (Seq (Grp 1 (plus upper_cls)) colon_spaces)"

definition speaker_patterns :: "regex list" where
  "speaker_patterns = [title_speaker, caps_speaker, word_speaker, capsword_speaker]"

definition bracketed :: "char \<Rightarrow> char \<Rightarrow> regex" where
  \<comment> \<open>\<open>\[.*?\]\<close> and its two siblings: an opening character, as little as possible of
      anything but a newline, the closing character\<close>
  "bracketed l r = Seq (Lit l) (Seq (Lazy Dot) (Lit r))"

definition run_of :: "char \<Rightarrow> regex" where
  \<comment> \<open>\<open>--+\<close> and \<open>__+\<close>: two or more of the character\<close>
  "run_of c = Seq (Lit c) (plus (Lit c))"

definition dots :: regex where
  \<comment> \<open>\<open>\.\.\.+\<close>: three or more dots\<close>
  "dots = Seq (Lit CHR ''.'') (Seq (Lit CHR ''.'') (plus (Lit CHR ''.'')))"

definition noise_patterns :: "regex list" where
  "noise_patterns =
    [bracketed CHR ''['' CHR '']'', bracketed CHR ''('' CHR '')'', bracketed CHR ''<'' CHR ''>'',
     dots, run_of CHR ''-'', run_of CHR ''_'']"

definition punct_cls :: regex where
  \<comment> \<open>\<open>[.!?,:;]\<close>\<close>
  "punct_cls = Cls [CChar CHR ''.'', CChar CHR ''!'', CChar CHR ''?'', CChar CHR '','',
                    CChar CHR '':'', CChar CHR '';'']"

definition word_re :: "string \<Rightarrow> regex" where
  \<comment> \<open>\<open>\bword\b\<close>\<close>
  "word_re w = Seq Wordb (Seq (lit w) Wordb)"

definition doubled_re :: "string \<Rightarrow> regex" where
  \<comment> \<open>\<open>\bword\s+word\b\<close>\<close>
  "doubled_re w = Seq Wordb (Seq (lit w) (Seq (plus (Cls [CSpace])) (Seq (lit w) Wordb)))"

definition fixes_table :: "(regex \<times> string) list" where
  "fixes_table = [(word_re ''uh'', []), (word_re ''um'', []), (word_re ''er'', []),
            (doubled_re ''well'', ''well''), (doubled_re ''yeah'', ''yeah''),
            (doubled_re ''okay'', ''okay'')]"

definition fix_common_issues :: "string \<Rightarrow> string" where
  "fix_common_issues text =
     (let t1 = re_sub no_flags (Seq (plus (Cls [CSpace])) (Grp 1 punct_cls)) [RGroup 1] text;
          t2 = re_sub no_flags (Seq (Grp 1 punct_cls) (Grp 2 upper_cls))
                 [RGroup 1, RText '' '', RGroup 2] t1
      in foldl (\<lambda>t (pattern, replacement). re_sub IGNORECASE pattern [RText replacement] t) t2 fixes_table)"

definition clean_text :: "string \<Rightarrow> string" where
  "clean_text text =
     (let c1 = foldl (\<lambda>cleaned pattern. re_sub no_flags pattern [] cleaned) text noise_patterns;
          c2 = re_sub no_flags (plus (Cls [CSpace])) [RText '' ''] c1;
          c3 = re_sub no_flags (Seq (Grp 1 end_cls) (Seq (Star (Cls [CSpace])) (plus (Grp 2 end_cls))))
                 [RGroup 1] c2;
          c4 = fix_common_issues c3
      in str_strip c4)"

fun sentences_loop :: "string list \<Rightarrow> string list \<Rightarrow> string list" where
  \<comment> \<open>the \<open>for sentence in sentences\<close> loop; \<open>acc\<close> is \<open>cleaned_sentences\<close>\<close>
  "sentences_loop acc [] = acc"
| "sentences_loop acc (sentence # rest) =
     (let sentence' = str_strip sentence
      in if length sentence' > 10 then sentences_loop (acc @ [sentence']) rest
         else sentences_loop acc rest)"

definition extract_sentences :: "string \<Rightarrow> string list" where
  "extract_sentences text = sentences_loop [] (re_split no_flags sentence_end text)"

fun first_speaker :: "regex list \<Rightarrow> string \<Rightarrow> string option" where
  \<comment> \<open>the inner \<open>for pattern in self.speaker_patterns\<close> loop: the first pattern that matches
      the line ends the loop, whether or not its name is kept\<close>
  "first_speaker [] line = None"
| "first_speaker (pattern # ps) line =
     (case re_match no_flags pattern line of
        None \<Rightarrow> first_speaker ps line
      | Some (n, caps) \<Rightarrow>
          (let speaker = str_strip (group caps 1)
           in if length speaker > 1 then Some speaker else None))"

fun speakers_loop :: "string set \<Rightarrow> string list \<Rightarrow> string set" where
  "speakers_loop speakers [] = speakers"
| "speakers_loop speakers (line # lines) =
     (case first_speaker speaker_patterns line of
        None \<Rightarrow> speakers_loop speakers lines
      | Some speaker \<Rightarrow> speakers_loop (insert speaker speakers) lines)"

definition extract_speakers :: "string \<Rightarrow> string list" where
  \<comment> \<open>\<open>sorted\<close> orders strings by code point, as the lexicographic order on \<open>string\<close> does\<close>
  "extract_speakers text =
     sorted_list_of_set (speakers_loop {} (split_on CHR 0x0A text))"

text \<open>
  The module's logger is the one piece of state that lives across calls. Every entry point
  takes the log as it stands and returns it with the records it added; a record keeps the
  level and the values formatted into the message.
\<close>

datatype log_entry =
    LogWarning string "string option"
  | LogInfo string "real list"
  | LogError string string

type_synonym log = "log_entry list"

record metadata_fields =
  original_length :: nat
  cleaned_length :: nat
  sentence_count :: nat
  speaker_count :: nat
  average_sentence_length :: real
  word_count :: nat
  md_speakers :: "string list"
  processing_timestamp :: string

datatype transcript_metadata = Metadata metadata_fields | MetadataError "string option"

record ProcessedTranscript =
  original_text :: pyval
  cleaned_text :: string
  pt_sentences :: "string list"
  speakers :: "string list"
  pt_metadata :: transcript_metadata

definition create_metadata :: "string \<Rightarrow> string \<Rightarrow> string list \<Rightarrow> string list \<Rightarrow> transcript_metadata" where
  "create_metadata original cleaned sentences spks = Metadata
     \<lparr>original_length = length original,
      cleaned_length = length cleaned,
      sentence_count = length sentences,
      speaker_count = length spks,
      average_sentence_length =
        (if sentences \<noteq> []
         then real (sum_list (map (\<lambda>s. length (str_split s)) sentences)) / real (length sentences)
         else 0),
      word_count = length (str_split cleaned),
      md_speakers = spks,
      processing_timestamp = ''2024-01-01T00:00:00Z''\<rparr>"

definition processor_empty_result :: "pyval \<Rightarrow> string option \<Rightarrow> ProcessedTranscript" where
  \<comment> \<open>\<open>TranscriptProcessor._create_empty_result\<close>\<close>
  "processor_empty_result original err =
     \<lparr>original_text = original, cleaned_text = [], pt_sentences = [], speakers = [],
      pt_metadata = MetadataError err\<rparr>"

definition process :: "pyval \<Rightarrow> log \<Rightarrow> (exn + ProcessedTranscript) \<times> log" where
  \<comment> \<open>\<open>validate_transcript\<close> is called before the \<open>try\<close>: what it raises reaches the caller.
      Nothing inside the \<open>try\<close> can raise, so the \<open>except\<close> branch has no counterpart.\<close>
  "process text lg =
     (case validate_transcript text of
        Inl e \<Rightarrow> (Inl e, lg)
      | Inr validation \<Rightarrow>
          if \<not> is_valid validation
          then (Inr (processor_empty_result text (error validation)),
                lg @ [LogWarning ''Invalid transcript'' (error validation)])
          else
            let original = transcript validation;
                cleaned = clean_text original;
                sentences = extract_sentences cleaned;
                spks = extract_speakers cleaned;
                md = create_metadata original cleaned sentences spks
            in (Inr \<lparr>original_text = PStr original, cleaned_text = cleaned,
                     pt_sentences = sentences, speakers = spks, pt_metadata = md\<rparr>,
                lg @ [LogInfo ''Processed transcript'' [real (length sentences), real (length spks)]]))"

section \<open>The Sentiment Scorer (core/sentiment_analyzer.py)\<close>

text \<open>
  Scores are Python floats; they are modelled as real numbers, so a sum or a quotient below is
  the exact one. VADER and TextBlob are third-party libraries: the three calls the analyzer
  makes to them are parameters, each returning either its value or the message of the
  exception it raised.
\<close>

datatype label = Positive | Negative | Neutral

record vader_result =
  neg :: real
  neu :: real
  pos :: real
  compound :: real

record textblob_result =
  tb_polarity :: real
  tb_subjectivity :: real

record libs =
  polarity_scores :: "string \<Rightarrow> string + vader_result"
  blob_sentiment :: "string \<Rightarrow> string + textblob_result"
  blob_sentences :: "string \<Rightarrow> string + string list"

record SentimentAnalyzer =
  use_vader :: bool
  use_textblob :: bool
  positive_words :: "string list"
  negative_words :: "string list"
  intensity_words :: "string list"

definition SentimentAnalyzer_init :: "bool \<Rightarrow> bool \<Rightarrow> SentimentAnalyzer" where
  \<comment> \<open>\<open>__init__\<close>. The three word sets are listed without their repeated entries; the order in
      which a set is walked does not show in any result, since highlights are sorted by start
      and the intensity test is an \<open>any\<close>.\<close>
  "SentimentAnalyzer_init uv ut =
     \<lparr>use_vader = uv, use_textblob = ut,
      positive_words =
        [''good'', ''great'', ''excellent'', ''happy'', ''love'', ''wonderful'', ''amazing'',
         ''positive'', ''pleased'', ''satisfied'', ''fantastic'', ''nice'', ''awesome'',
         ''glad'', ''enjoy'', ''perfect'', ''outstanding'', ''brilliant'', ''superb'',
         ''delighted'', ''thrilled'', ''excited'', ''optimistic'', ''confident''],
      negative_words =
        [''bad'', ''terrible'', ''awful'', ''sad'', ''hate'', ''horrible'', ''negative'',
         ''angry'', ''upset'', ''disappointed'', ''poor'', ''worse'', ''worst'',
         ''unhappy'', ''annoyed'', ''frustrated'', ''concerned'', ''worried''],
      intensity_words =
        [''very'', ''extremely'', ''incredibly'', ''absolutely'', ''completely'',
         ''totally'', ''really'', ''quite'', ''rather'', ''somewhat'', ''slightly'']\<rparr>"

record highlight =
  word :: string
  h_polarity :: label
  h_start :: nat
  h_end :: nat
  intensity :: string

record sentence_result =
  sr_text :: string
  sentiment :: label
  polarity :: real
  confidence :: real
  highlights :: "highlight list"
  highlighted_text :: string
  is_important :: bool
  vader_scores :: "vader_result option"
  textblob_scores :: "textblob_result option"
  sr_error :: "string option"

definition get_word_intensity :: "SentimentAnalyzer \<Rightarrow> string \<Rightarrow> nat \<Rightarrow> nat \<Rightarrow> string" where
  \<comment> \<open>\<open>max(0, start-20)\<close> is the truncating subtraction on \<open>nat\<close>\<close>
  "get_word_intensity a txt start stop =
     (let before_text = str_lower (slice (start - 20) start txt)
      in if list_ex (\<lambda>intensity_word. str_contains before_text intensity_word) (intensity_words a)
         then ''High'' else ''Medium'')"

definition word_highlights :: "SentimentAnalyzer \<Rightarrow> label \<Rightarrow> string \<Rightarrow> string \<Rightarrow> highlight list" where
  \<comment> \<open>the inner loop over \<open>re.finditer\<close> for one lexicon word\<close>
  "word_highlights a lab txt w =
     map (\<lambda>(i, j, caps). \<lparr>word = slice i j txt, h_polarity = lab, h_start = i, h_end = j,
                            intensity = get_word_intensity a txt i j\<rparr>)
         (re_finditer no_flags (word_re w) (str_lower txt))"

definition generate_highlights :: "SentimentAnalyzer \<Rightarrow> string \<Rightarrow> highlight list" where
  \<comment> \<open>\<open>list.sort\<close> is stable, as \<open>sort_key\<close> is\<close>
  "generate_highlights a txt =
     sort_key h_start
       (concat (map (word_highlights a Positive txt) (positive_words a))
        @ concat (map (word_highlights a Negative txt) (negative_words a)))"

fun highlight_parts :: "string \<Rightarrow> nat \<Rightarrow> highlight list \<Rightarrow> string list" where
  \<comment> \<open>the loop of \<open>_create_highlighted_text\<close>; the second argument is \<open>last_end\<close>\<close>
  "highlight_parts txt last_end [] = [drop last_end txt]"
| "highlight_parts txt last_end (h # hs) =
     (if h_start h < last_end then highlight_parts txt last_end hs
      else slice last_end (h_start h) txt # (''**'' @ word h @ ''**'')
           # highlight_parts txt (h_end h) hs)"

definition create_highlighted_text :: "string \<Rightarrow> highlight list \<Rightarrow> string" where
  "create_highlighted_text txt hs =
     (if hs = [] then txt else concat (highlight_parts txt 0 (sort_key h_start hs)))"

definition sentiment_label :: "real \<Rightarrow> label" where
  \<comment> \<open>lines 176 to 181, and again lines 307 to 312\<close>
  "sentiment_label s = (if s \<ge> 0.05 then Positive else if s \<le> - 0.05 then Negative else Neutral)"

definition sentence_init :: "string \<Rightarrow> sentence_result" where
  "sentence_init sentence =
     \<lparr>sr_text = sentence, sentiment = Neutral, polarity = 0, confidence = 0, highlights = [],
      highlighted_text = sentence, is_important = False, vader_scores = None,
      textblob_scores = None, sr_error = None\<rparr>"

definition scored_sentence :: "SentimentAnalyzer \<Rightarrow> sentence_result \<Rightarrow> real \<Rightarrow> real \<Rightarrow> sentence_result" where
  \<comment> \<open>lines 166 to 203: from the two library scores to the updated record\<close>
  "scored_sentence a result vader_compound textblob_polarity =
     (let sentence = sr_text result;
          combined_score =
            (if use_vader a \<and> use_textblob a then vader_compound * 0.7 + textblob_polarity * 0.3
             else if use_vader a then vader_compound
             else textblob_polarity);
          conf = \<bar>combined_score\<bar>;
          hs = generate_highlights a sentence;
          important = (conf \<ge> 0.3 \<or> length hs > 0
             \<or> list_ex (\<lambda>w. str_contains (str_lower sentence) w)
                  [''action'', ''next'', ''follow'', ''deadline'', ''urgent''])
      in result\<lparr>sentiment := sentiment_label combined_score, polarity := combined_score,
                confidence := conf, highlights := hs,
                highlighted_text := create_highlighted_text sentence hs,
                is_important := important\<rparr>)"

definition vader_step :: "SentimentAnalyzer \<Rightarrow> libs \<Rightarrow> sentence_result
                          \<Rightarrow> string + sentence_result \<times> real" where
  \<comment> \<open>lines 147 to 152: the record with \<open>vader_scores\<close> stored, and \<open>vader_compound\<close>\<close>
  "vader_step a L result =
     (if use_vader a
      then (case polarity_scores L (sr_text result) of
              Inl msg \<Rightarrow> Inl msg
            | Inr v \<Rightarrow> Inr (result\<lparr>vader_scores := Some v\<rparr>, compound v))
      else Inr (result, 0))"

definition textblob_step :: "SentimentAnalyzer \<Rightarrow> libs \<Rightarrow> sentence_result
                             \<Rightarrow> string + sentence_result \<times> real" where
  \<comment> \<open>lines 155 to 164: the record with \<open>textblob_scores\<close> stored, and \<open>textblob_polarity\<close>\<close>
  "textblob_step a L result =
     (if use_textblob a
      then (case blob_sentiment L (sr_text result) of
              Inl msg \<Rightarrow> Inl msg
            | Inr t \<Rightarrow> Inr (result\<lparr>textblob_scores := Some t\<rparr>, tb_polarity t))
      else Inr (result, 0))"

definition sentence_failed :: "sentence_result \<Rightarrow> string \<Rightarrow> log \<Rightarrow> sentence_result \<times> log" where
  \<comment> \<open>the \<open>except\<close> branch: the record as it stood, with the error added\<close>
  "sentence_failed result msg lg =
     (result\<lparr>sr_error := Some msg\<rparr>, lg @ [LogError ''Error analyzing sentence'' msg])"

definition analyze_sentence :: "SentimentAnalyzer \<Rightarrow> libs \<Rightarrow> string \<Rightarrow> log \<Rightarrow> sentence_result \<times> log" where
  "analyze_sentence a L sentence lg =
     (let result = sentence_init sentence
      in case vader_step a L result of
           Inl msg \<Rightarrow> sentence_failed result msg lg
         | Inr (result1, vader_compound) \<Rightarrow>
             (case textblob_step a L result1 of
                Inl msg \<Rightarrow> sentence_failed result1 msg lg
              | Inr (result2, textblob_polarity) \<Rightarrow>
                  (scored_sentence a result2 vader_compound textblob_polarity, lg)))"

definition sa_extract_sentences :: "libs \<Rightarrow> string \<Rightarrow> string + string list" where
  \<comment> \<open>\<open>SentimentAnalyzer._extract_sentences\<close>\<close>
  "sa_extract_sentences L txt =
     map_sum id (\<lambda>ss. filter (\<lambda>s. length (str_split s) \<ge> 3) (map str_strip ss))
       (blob_sentences L txt)"

fun analyze_loop :: "SentimentAnalyzer \<Rightarrow> libs \<Rightarrow> string list \<Rightarrow> sentence_result list \<Rightarrow> log
                     \<Rightarrow> sentence_result list \<times> log" where
  \<comment> \<open>the \<open>for sentence in sentences\<close> loop of \<open>analyze\<close>\<close>
  "analyze_loop a L [] results lg = (results, lg)"
| "analyze_loop a L (sentence # rest) results lg =
     (case analyze_sentence a L sentence lg of
        (r, lg') \<Rightarrow> analyze_loop a L rest (results @ [r]) lg')"

record overall_sentiment =
  os_overall :: label
  os_score :: real
  os_confidence :: real

fun weigh :: "sentence_result list \<Rightarrow> real \<times> real \<Rightarrow> real \<times> real" where
  \<comment> \<open>the loop of \<open>_calculate_overall_sentiment\<close> on \<open>(total_weight, weighted_score)\<close>; every
      record carries both keys, so the membership test of the source is always true\<close>
  "weigh [] (total_weight, weighted_score) = (total_weight, weighted_score)"
| "weigh (result # rest) (total_weight, weighted_score) =
     (let weight = confidence result
      in weigh rest (total_weight + weight, weighted_score + polarity result * weight))"

definition calculate_overall_sentiment :: "sentence_result list \<Rightarrow> overall_sentiment" where
  "calculate_overall_sentiment sentence_results =
     (if sentence_results = [] then \<lparr>os_overall = Neutral, os_score = 0, os_confidence = 0\<rparr>
      else case weigh sentence_results (0, 0) of (total_weight, weighted_score) \<Rightarrow>
        if total_weight = 0 then \<lparr>os_overall = Neutral, os_score = 0, os_confidence = 0\<rparr>
        else
          let avg_score = weighted_score / total_weight;
              avg_confidence = total_weight / real (length sentence_results)
          in \<lparr>os_overall = sentiment_label avg_score, os_score = avg_score,
              os_confidence = min avg_confidence 1\<rparr>)"

record summary_stats =
  total_sentences :: nat
  sentiment_distribution :: "(label \<times> nat) list"
  average_polarity :: real
  average_confidence :: real
  max_polarity :: real
  min_polarity :: real
  important_sentences :: nat

datatype summary = SummaryEmpty | Summary summary_stats | SummaryError "string option"

definition create_summary :: "sentence_result list \<Rightarrow> summary" where
  "create_summary sentence_results =
     (case map polarity sentence_results of
        [] \<Rightarrow> SummaryEmpty
      | p # ps \<Rightarrow>
          let sentiments = map sentiment sentence_results;
              confidences = map confidence sentence_results
          in Summary
             \<lparr>total_sentences = length sentence_results,
              sentiment_distribution =
                [(Positive, count_list sentiments Positive),
                 (Negative, count_list sentiments Negative),
                 (Neutral, count_list sentiments Neutral)],
              average_polarity = sum_list (p # ps) / real (length (p # ps)),
              average_confidence = sum_list confidences / real (length confidences),
              max_polarity = fold max ps p,
              min_polarity = fold min ps p,
              important_sentences = length (filter is_important sentence_results)\<rparr>)"

record SentimentResult =
  overall :: label
  score :: real
  result_confidence :: real
  sentences :: "sentence_result list"
  result_summary :: summary

definition sentiment_empty_result :: "string option \<Rightarrow> SentimentResult" where
  \<comment> \<open>\<open>SentimentAnalyzer._create_empty_result\<close>\<close>
  "sentiment_empty_result err =
     \<lparr>overall = Neutral, score = 0, result_confidence = 0, sentences = [],
      result_summary = SummaryError err\<rparr>"

definition analyze :: "SentimentAnalyzer \<Rightarrow> libs \<Rightarrow> pyval \<Rightarrow> log \<Rightarrow> (exn + SentimentResult) \<times> log" where
  \<comment> \<open>\<open>validate_transcript\<close> is called before the \<open>try\<close>: what it raises reaches the caller.
      Inside the \<open>try\<close> only the tokenizer can raise; the scorers are guarded in
      \<open>_analyze_sentence\<close>.\<close>
  "analyze a L txt lg =
     (case validate_transcript txt of
        Inl e \<Rightarrow> (Inl e, lg)
      | Inr validation \<Rightarrow>
          if \<not> is_valid validation
          then (Inr (sentiment_empty_result (error validation)),
                lg @ [LogWarning ''Invalid transcript'' (error validation)])
          else
            (case sa_extract_sentences L (transcript validation) of
               Inl msg \<Rightarrow> (Inr (sentiment_empty_result (Some (''Analysis error: '' @ msg))),
                           lg @ [LogError ''Sentiment analysis error'' msg])
             | Inr sents \<Rightarrow>
                 (case analyze_loop a L sents [] lg of (sentence_results, lg1) \<Rightarrow>
                    let ov = calculate_overall_sentiment sentence_results;
                        summ = create_summary sentence_results
                    in (Inr \<lparr>overall = os_overall ov, score = os_score ov,
                             result_confidence = os_confidence ov,
                             sentences = sentence_results, result_summary = summ\<rparr>,
                        lg1 @ [LogInfo ''Sentiment analysis completed'' [os_score ov]]))))"

section \<open>The Insight Classifier (core/insight_extractor.py)\<close>

datatype InsightType = PROBLEM | SOLUTION | ACTION_ITEM | OPPORTUNITY | RISK | DECISION

fun type_value :: "InsightType \<Rightarrow> string" where
  "type_value PROBLEM = ''problem''"
| "type_value SOLUTION = ''solution''"
| "type_value ACTION_ITEM = ''action_item''"
| "type_value OPPORTUNITY = ''opportunity''"
| "type_value RISK = ''risk''"
| "type_value DECISION = ''decision''"

definition all_types :: "InsightType list" where
  \<comment> \<open>\<open>for insight_type in InsightType\<close>: the members in definition order\<close>
  "all_types = [PROBLEM, SOLUTION, ACTION_ITEM, OPPORTUNITY, RISK, DECISION]"

record Insight =
  i_text :: string
  i_type :: InsightType
  i_confidence :: real
  i_category :: string
  i_keywords :: "string list"
  i_context :: string
  i_priority :: string

record patterns_config =
  patterns :: "regex list"
  pc_keywords :: "string list"
  categories :: "string list"

definition trigger :: "string list \<Rightarrow> regex" where
  \<comment> \<open>\<open>(?:w1|w2|...)[\s\w\',-]*[.!?]\<close>: the shape of all thirty patterns\<close>
  "trigger ws = Seq (alts (map lit ws))
     (Seq (Star (Cls [CSpace, CWord, CChar (CHR 0x27), CChar CHR '','', CChar CHR ''-''])) end_cls)"

fun initialize_patterns :: "InsightType \<Rightarrow> patterns_config" where
  "initialize_patterns PROBLEM =
     \<lparr>patterns =
        [trigger [''problem'', ''issue'', ''challenge'', ''concern'', ''difficult'', ''trouble'',
                  ''obstacle'', ''barrier'', ''pain point''],
         trigger [''struggling'', ''facing'', ''dealing with'', ''having trouble with''],
         trigger [''not working'', ''broken'', ''failed'', ''unsuccessful''],
         trigger [''need to fix'', ''need to resolve'', ''need to address''],
         trigger [''concerned about'', ''worried about'', ''anxious about'']],
      pc_keywords = [''problem'', ''issue'', ''challenge'', ''concern'', ''difficult'', ''trouble'',
                     ''struggling'', ''broken'', ''failed''],
      categories = [''technical'', ''business'', ''process'', ''resource'', ''timeline'']\<rparr>"
| "initialize_patterns SOLUTION =
     \<lparr>patterns =
        [trigger [''solution'', ''resolve'', ''fix'', ''address'', ''recommend'', ''suggest'',
                  ''propose'', ''implement''],
         trigger [''we can'', ''we should'', ''we need to'', ''let'' @ [CHR 0x27] @ ''s'', ''how about''],
         trigger [''best practice'', ''approach'', ''method'', ''strategy''],
         trigger [''workaround'', ''alternative'', ''option''],
         trigger [''upgrade'', ''improve'', ''enhance'', ''optimize'']],
      pc_keywords = [''solution'', ''resolve'', ''fix'', ''address'', ''recommend'', ''suggest'',
                     ''implement'', ''approach'', ''strategy''],
      categories = [''technical'', ''process'', ''training'', ''resource'', ''timeline'']\<rparr>"
| "initialize_patterns ACTION_ITEM =
     \<lparr>patterns =
        [trigger [''action item'', ''next step'', ''todo'', ''task'', ''follow up'', ''follow-up''],
         trigger [''we need to'', ''we should'', ''we will'', ''we'' @ [CHR 0x27] @ ''ll'',
                  ''let'' @ [CHR 0x27] @ ''s''],
         trigger [''schedule'', ''plan'', ''arrange'', ''coordinate''],
         trigger [''deadline'', ''due date'', ''timeline'', ''schedule''],
         trigger [''assign'', ''delegate'', ''responsible'', ''owner'']],
      pc_keywords = [''action'', ''next'', ''step'', ''todo'', ''task'', ''follow'', ''schedule'',
                     ''deadline'', ''assign'', ''responsible''],
      categories = [''immediate'', ''short_term'', ''long_term'', ''ongoing'']\<rparr>"
| "initialize_patterns OPPORTUNITY =
     \<lparr>patterns =
        [trigger [''opportunity'', ''potential'', ''possibility'', ''chance'', ''prospect''],
         trigger [''could'', ''might'', ''may'', ''if we''],
         trigger [''upsell'', ''cross-sell'', ''expand'', ''grow'', ''scale''],
         trigger [''partnership'', ''collaboration'', ''joint'', ''together''],
         trigger [''market'', ''customer'', ''client'', ''account'']],
      pc_keywords = [''opportunity'', ''potential'', ''possibility'', ''chance'', ''upsell'',
                     ''expand'', ''partnership'', ''market''],
      categories = [''sales'', ''partnership'', ''expansion'', ''market'', ''product'']\<rparr>"
| "initialize_patterns RISK =
     \<lparr>patterns =
        [trigger [''risk'', ''threat'', ''danger'', ''concern'', ''worry''],
         trigger [''if not'', ''unless'', ''otherwise'', ''or else''],
         trigger [''budget'', ''cost'', ''expense'', ''financial''],
         trigger [''timeline'', ''schedule'', ''deadline'', ''delay''],
         trigger [''competition'', ''competitor'', ''market'']],
      pc_keywords = [''risk'', ''threat'', ''danger'', ''concern'', ''worry'', ''budget'', ''cost'',
                     ''timeline'', ''competition''],
      categories = [''financial'', ''timeline'', ''competitive'', ''technical'', ''operational'']\<rparr>"
| "initialize_patterns DECISION =
     \<lparr>patterns =
        [trigger [''decide'', ''decision'', ''choose'', ''select'', ''pick''],
         trigger [''agree'', ''disagree'', ''approve'', ''reject''],
         trigger [''final'', ''conclude'', ''determine'', ''resolve''],
         trigger [''yes'', ''no'', ''maybe'', ''perhaps'', ''possibly''],
         trigger [''go with'', ''proceed with'', ''move forward'']],
      pc_keywords = [''decide'', ''decision'', ''choose'', ''select'', ''agree'', ''approve'',
                     ''final'', ''conclude'', ''yes'', ''no''],
      categories = [''approval'', ''selection'', ''direction'', ''commitment'', ''rejection'']\<rparr>"

definition stop_words :: "string set" where
  "stop_words = set
     [''the'', ''a'', ''an'', ''and'', ''or'', ''but'', ''in'', ''on'', ''at'', ''to'', ''for'',
      ''of'', ''with'', ''by'', ''is'', ''are'', ''was'', ''were'', ''be'', ''been'', ''being'',
      ''have'', ''has'', ''had'', ''do'', ''does'', ''did'', ''will'', ''would'', ''could'',
      ''should'', ''may'', ''might'', ''must'', ''can'', ''this'', ''that'', ''these'', ''those'']"

definition prefix_re :: "string list \<Rightarrow> regex" where
  \<comment> \<open>\<open>^(?:w1|w2|...)\s*\<close>\<close>
  "prefix_re ws = Seq Bol (Seq (alts (map lit ws)) (Star (Cls [CSpace])))"

definition prefixes_to_remove :: "regex list" where
  "prefixes_to_remove =
     [prefix_re [''so'', ''well'', ''okay'', ''ok'', ''alright'', ''right'', ''yes'', ''no'', ''sure'',
                 ''absolutely'', ''definitely''],
      prefix_re [''i think'', ''i believe'', ''i feel'', ''i guess'', ''i suppose''],
      prefix_re [''we need to'', ''we should'', ''we can'', ''we will'', ''we'' @ [CHR 0x27] @ ''ll'']]"

definition clean_insight_text :: "string \<Rightarrow> string" where
  "clean_insight_text txt =
     (let cleaned = re_sub no_flags (plus (Cls [CSpace])) [RText '' ''] (str_strip txt)
      in str_strip (foldl (\<lambda>c prefix. re_sub IGNORECASE prefix [] c) cleaned prefixes_to_remove))"

definition is_valid_insight :: "string \<Rightarrow> bool" where
  "is_valid_insight txt =
     (if txt = [] \<or> length txt < 10 then False
      else let ws = str_split txt
           in if length ws < 3 then False
              else let stop_word_count = length (filter (\<lambda>w. str_lower w \<in> stop_words) ws)
                   in if real stop_word_count / real (length ws) > 0.7 then False else True)"

definition action_words :: "string list" where
  "action_words = [''will'', ''should'', ''need'', ''must'', ''can'', ''could'']"

definition calculate_insight_confidence :: "string \<Rightarrow> patterns_config \<Rightarrow> real" where
  \<comment> \<open>\<open>sum(1 for x in xs if p)\<close> is a sum of ones over the elements that pass the test\<close>
  "calculate_insight_confidence txt config =
     (let text_lower = str_lower txt;
          keyword_matches = sum_list (map (\<lambda>keyword. 1)
             (filter (\<lambda>keyword. str_contains text_lower keyword) (pc_keywords config)));
          c1 = 0 + min (real keyword_matches * 0.2) 0.6;
          word_count = length (str_split txt);
          c2 = (if word_count > 10 then c1 + 0.2 else if word_count > 5 then c1 + 0.1 else c1);
          action_matches = sum_list (map (\<lambda>w. 1)
             (filter (\<lambda>w. str_contains text_lower w) action_words));
          c3 = c2 + min (real action_matches * 0.1) 0.2
      in min c3 1)"

definition extract_keywords :: "string \<Rightarrow> string list \<Rightarrow> string list" where
  "extract_keywords txt pattern_keywords =
     filter (\<lambda>keyword. str_contains (str_lower txt) keyword) pattern_keywords"

definition category_keywords :: "(string \<times> string list) list" where
  "category_keywords =
     [(''technical'', [''technical'', ''system'', ''software'', ''hardware'', ''bug'', ''error'', ''code'']),
      (''business'', [''business'', ''revenue'', ''profit'', ''customer'', ''market'', ''sales'']),
      (''process'', [''process'', ''workflow'', ''procedure'', ''method'', ''approach'']),
      (''resource'', [''resource'', ''budget'', ''cost'', ''money'', ''funding'', ''staff'', ''team'']),
      (''timeline'', [''timeline'', ''schedule'', ''deadline'', ''date'', ''time'', ''urgent'', ''priority''])]"

fun first_category :: "string \<Rightarrow> (string \<times> string list) list \<Rightarrow> string option" where
  "first_category text_lower [] = None"
| "first_category text_lower ((cat, kws) # rest) =
     (if list_ex (\<lambda>keyword. str_contains text_lower keyword) kws then Some cat
      else first_category text_lower rest)"

definition categorize_insight :: "string \<Rightarrow> string list \<Rightarrow> string" where
  "categorize_insight txt cats =
     (case first_category (str_lower txt) category_keywords of
        Some cat \<Rightarrow> cat
      | None \<Rightarrow> (case cats of c # _ \<Rightarrow> c | [] \<Rightarrow> ''general''))"

definition determine_priority :: "string \<Rightarrow> InsightType \<Rightarrow> real \<Rightarrow> string" where
  "determine_priority txt insight_type conf =
     (if list_ex (\<lambda>w. str_contains (str_lower txt) w)
           [''urgent'', ''critical'', ''important'', ''asap'', ''immediately'', ''deadline''] then ''high''
      else if insight_type \<in> set [ACTION_ITEM, PROBLEM] \<and> conf > 0.5 then ''medium''
      else if insight_type \<in> set [OPPORTUNITY, DECISION] then ''low''
      else ''medium'')"

fun join :: "string \<Rightarrow> string list \<Rightarrow> string" where
  \<comment> \<open>\<open>sep.join(parts)\<close>\<close>
  "join sep [] = []"
| "join sep [p] = p"
| "join sep (p # ps) = p @ sep @ join sep ps"

fun context_window :: "string \<Rightarrow> string list \<Rightarrow> nat \<Rightarrow> string list \<Rightarrow> string list" where
  \<comment> \<open>the \<open>enumerate\<close> loop of \<open>_extract_context\<close>: \<open>i\<close> is the index of the head of the
      remaining list; \<open>i - 1\<close> truncates at 0 as \<open>max(0, i - 1)\<close> does\<close>
  "context_window text_lower all_sentences i [] = []"
| "context_window text_lower all_sentences i (sentence # rest) =
     (if str_contains (str_lower sentence) text_lower
      then slice_list (i - 1) (min (length all_sentences) (i + 2)) all_sentences
      else context_window text_lower all_sentences (Suc i) rest)"

definition extract_context :: "string \<Rightarrow> string \<Rightarrow> string" where
  "extract_context txt full_context =
     (let text_lower = str_lower txt;
          context_lower = str_lower full_context
      in case str_find context_lower text_lower of
           None \<Rightarrow> txt
         | Some start_pos \<Rightarrow>
             (let sents = re_split no_flags sentence_end full_context
              in str_strip (join '' '' (context_window text_lower sents 0 sents))))"

definition create_insight :: "string \<Rightarrow> InsightType \<Rightarrow> patterns_config \<Rightarrow> string \<Rightarrow> Insight option" where
  \<comment> \<open>nothing in the \<open>try\<close> can raise, so an \<open>Insight\<close> is always returned\<close>
  "create_insight txt insight_type config full_context =
     (let conf = calculate_insight_confidence txt config;
          kws = extract_keywords txt (pc_keywords config);
          cat = categorize_insight txt (categories config);
          prio = determine_priority txt insight_type conf;
          context_sentences = extract_context txt full_context
      in Some \<lparr>i_text = txt, i_type = insight_type, i_confidence = conf, i_category = cat,
                i_keywords = kws, i_context = context_sentences, i_priority = prio\<rparr>)"

fun dedup_loop :: "Insight list \<Rightarrow> Insight list \<Rightarrow> string set \<Rightarrow> Insight list" where
  \<comment> \<open>the loop of \<open>_deduplicate_insights\<close> on \<open>unique_insights\<close> and \<open>seen_texts\<close>\<close>
  "dedup_loop [] unique_insights seen_texts = unique_insights"
| "dedup_loop (insight # rest) unique_insights seen_texts =
     (let text_lower = str_lower (i_text insight)
      in if text_lower \<notin> seen_texts
         then dedup_loop rest (unique_insights @ [insight]) (insert text_lower seen_texts)
         else dedup_loop rest unique_insights seen_texts)"

definition deduplicate_insights :: "Insight list \<Rightarrow> Insight list" where
  "deduplicate_insights insights = (if insights = [] then [] else dedup_loop insights [] {})"

fun matches_loop :: "InsightType \<Rightarrow> patterns_config \<Rightarrow> string \<Rightarrow> string list \<Rightarrow> Insight list
                     \<Rightarrow> Insight list" where
  \<comment> \<open>the \<open>for match in matches\<close> loop; the patterns have no capturing group, so a match is
      never a tuple\<close>
  "matches_loop ty config txt [] insights = insights"
| "matches_loop ty config txt (m # ms) insights =
     (let cleaned_match = clean_insight_text m
      in if is_valid_insight cleaned_match
         then (case create_insight cleaned_match ty config txt of
                 Some insight \<Rightarrow> matches_loop ty config txt ms (insights @ [insight])
               | None \<Rightarrow> matches_loop ty config txt ms insights)
         else matches_loop ty config txt ms insights)"

fun patterns_loop :: "InsightType \<Rightarrow> patterns_config \<Rightarrow> string \<Rightarrow> regex list \<Rightarrow> Insight list
                      \<Rightarrow> Insight list" where
  \<comment> \<open>the \<open>for pattern in patterns_config["patterns"]\<close> loop\<close>
  "patterns_loop ty config txt [] insights = insights"
| "patterns_loop ty config txt (pattern # ps) insights =
     patterns_loop ty config txt ps
       (matches_loop ty config txt (re_findall IGNORECASE_MULTILINE pattern txt) insights)"

definition candidate_insights :: "string \<Rightarrow> InsightType \<Rightarrow> Insight list" where
  \<comment> \<open>lines 209 to 229 of \<open>_extract_insights_by_type\<close>: the insights of all matches of all
      patterns of the type, before deduplication\<close>
  "candidate_insights txt insight_type =
     (let config = initialize_patterns insight_type
      in patterns_loop insight_type config txt (patterns config) [])"

definition extract_insights_by_type :: "string \<Rightarrow> InsightType \<Rightarrow> Insight list" where
  \<comment> \<open>lines 231 to 233. \<open>sorted(..., reverse=True)\<close> is stable: insights of equal confidence keep
      their order, as under \<open>sort_key\<close> on the negated confidence\<close>
  "extract_insights_by_type txt insight_type =
     (let insights = candidate_insights txt insight_type;
          unique_insights = deduplicate_insights insights
      in sort_key (\<lambda>x. - i_confidence x) unique_insights)"

definition round3 :: "real \<Rightarrow> real" where
  \<comment> \<open>\<open>round(x, 3)\<close>: to the nearest multiple of 0.001, a tie going to the even one\<close>
  "round3 x =
     (let y = x * 1000; f = \<lfloor>y\<rfloor>; d = y - of_int f
      in of_int (if d < 1/2 then f else if d > 1/2 then f + 1
                 else if even f then f else f + 1) / 1000)"

definition calculate_extraction_confidence :: "Insight list \<Rightarrow> real" where
  "calculate_extraction_confidence insights =
     (if insights = [] then 0
      else round3 (sum_list (map i_confidence insights) / real (length insights)))"

record detail =
  d_text :: string
  d_confidence :: real
  d_category :: string
  d_keywords :: "string list"
  d_priority :: string

record report_metadata =
  total_insights :: nat
  insights_by_type :: "(string \<times> nat) list"
  extraction_confidence :: real
  high_priority_items :: "string list"
  md_error :: "string option option"

record InsightReport =
  problems :: "string list"
  solutions :: "string list"
  action_items :: "string list"
  opportunities :: "string list"
  risks :: "string list"
  decisions :: "string list"
  metadata :: report_metadata
  detailed_insights :: "(string \<times> detail list) list"

definition insights_empty_result :: "string option \<Rightarrow> InsightReport" where
  \<comment> \<open>\<open>InsightExtractor._create_empty_result\<close>; \<open>md_error\<close> is \<open>None\<close> where the metadata has
      no \<open>error\<close> key\<close>
  "insights_empty_result err =
     \<lparr>problems = [], solutions = [], action_items = [], opportunities = [], risks = [],
      decisions = [],
      metadata = \<lparr>total_insights = 0, insights_by_type = [], extraction_confidence = 0,
                  high_priority_items = [], md_error = Some err\<rparr>,
      detailed_insights = []\<rparr>"

record insight_validation =
  iv_is_valid :: bool
  iv_errors :: "string list"
  iv_warnings :: "string list"

definition validate_insight_data :: "InsightReport \<Rightarrow> insight_validation" where
  \<comment> \<open>the three required keys are fields of the record and hold lists, so no error is found\<close>
  "validate_insight_data r =
     (let total = length (problems r) + length (solutions r) + length (action_items r)
      in \<lparr>iv_is_valid = True, iv_errors = [],
          iv_warnings = (if total = 0 then [''No insights extracted from transcript''] else [])\<rparr>)"

definition texts_of :: "(string \<times> Insight list) list \<Rightarrow> InsightType \<Rightarrow> string list" where
  \<comment> \<open>\<open>[i.text for i in insights_by_type[t.value]]\<close>\<close>
  "texts_of by_type ty =
     (case map_of by_type (type_value ty) of None \<Rightarrow> [] | Some insights \<Rightarrow> map i_text insights)"

definition detailed_insights_of :: "(string \<times> Insight list) list
                                     \<Rightarrow> exn + (string \<times> detail list) list" where
  \<comment> \<open>lines 180 to 192. The comprehension walks the items of \<open>insights_by_type\<close>, whose keys
      are the strings stored at line 163, and computes each new key as \<open>insight_type.value\<close>:
      on the first item that is the attribute \<open>value\<close> of a \<open>str\<close>, and AttributeError is
      raised. Only over no item at all is a dictionary, the empty one, built.\<close>
  "detailed_insights_of by_type =
     (case by_type of
        [] \<Rightarrow> Inr []
      | (key, insights) # rest \<Rightarrow> Inl (AttributeError ''str'' ''value''))"

definition build_report :: "(string \<times> Insight list) list \<Rightarrow> exn + InsightReport" where
  \<comment> \<open>lines 167 to 193: the entries of the dictionary are computed in the order written, the
      detailed insights last\<close>
  "build_report by_type =
     (let all_insights = concat (map snd by_type);
          problems' = texts_of by_type PROBLEM;
          solutions' = texts_of by_type SOLUTION;
          action_items' = texts_of by_type ACTION_ITEM;
          opportunities' = texts_of by_type OPPORTUNITY;
          risks' = texts_of by_type RISK;
          decisions' = texts_of by_type DECISION;
          metadata' =
            \<lparr>total_insights = length all_insights,
             insights_by_type = map (\<lambda>(k, v). (k, length v)) by_type,
             extraction_confidence = calculate_extraction_confidence all_insights,
             high_priority_items = map i_text (filter (\<lambda>i. i_priority i = ''high'') all_insights),
             md_error = None\<rparr>
      in case detailed_insights_of by_type of
           Inl e \<Rightarrow> Inl e
         | Inr detailed \<Rightarrow>
             Inr \<lparr>problems = problems', solutions = solutions', action_items = action_items',
                  opportunities = opportunities', risks = risks', decisions = decisions',
                  metadata = metadata', detailed_insights = detailed\<rparr>)"

definition extract_insights :: "pyval \<Rightarrow> log \<Rightarrow> (exn + InsightReport) \<times> log" where
  \<comment> \<open>\<open>validate_transcript\<close> is called before the \<open>try\<close>: what it raises reaches the caller.
      What building the report raises is caught by the \<open>except\<close> branch, which logs it and
      returns the empty result with the message.\<close>
  "extract_insights txt lg =
     (case validate_transcript txt of
        Inl e \<Rightarrow> (Inl e, lg)
      | Inr validation \<Rightarrow>
          if \<not> is_valid validation
          then (Inr (insights_empty_result (error validation)),
                lg @ [LogWarning ''Invalid transcript'' (error validation)])
          else
            let cleaned = transcript validation;
                by_type = map (\<lambda>ty. (type_value ty, extract_insights_by_type cleaned ty)) all_types
            in case build_report by_type of
                 Inl e \<Rightarrow>
                   (Inr (insights_empty_result (Some (''Extraction error: '' @ exn_str e))),
                    lg @ [LogError ''Insight extraction error'' (exn_str e)])
               | Inr result \<Rightarrow>
                   let validation_result = validate_insight_data result;
                       lg1 = (if \<not> iv_is_valid validation_result
                              then lg @ [LogWarning ''Insight validation failed'' None] else lg)
                   in (Inr result,
                       lg1 @ [LogInfo ''Extracted insights''
                                [real (total_insights (metadata result))]]))"

section \<open>Auxiliary notions for the statements\<close>

definition whole :: "mstate \<Rightarrow> string" where
  \<comment> \<open>the text a matcher state is a position in\<close>
  "whole st = rev (fst st) @ fst (snd st)"

definition advances :: "mstate \<Rightarrow> mstate \<Rightarrow> bool" where
  \<comment> \<open>the second state is a position in the same text, not before the first\<close>
  "advances st st' = (whole st' = whole st \<and> remaining st' \<le> remaining st)"

definition text_key :: "Insight \<Rightarrow> string" where
  \<comment> \<open>the key \<open>insight.text.lower()\<close> under which \<open>_deduplicate_insights\<close> compares\<close>
  "text_key i = str_lower (i_text i)"

fun keep_first :: "Insight list \<Rightarrow> Insight list" where
  \<comment> \<open>deduplication said directly: an insight stays, and every later insight with the same
      lower-cased text goes\<close>
  "keep_first [] = []"
| "keep_first (x # xs) = x # keep_first (filter (\<lambda>y. text_key y \<noteq> text_key x) xs)"

definition duplicate_example :: string where
  \<comment> \<open>a text with the same problem sentence twice, in two spellings\<close>
  "duplicate_example = ''problem a b. PROBLEM a b.''"

definition unit_conf :: "real \<Rightarrow> bool" where
  \<comment> \<open>a confidence value in the closed interval from 0 to 1\<close>
  "unit_conf c = (0 \<le> c \<and> c \<le> 1)"

definition scenario_6 :: string where
  \<comment> \<open>the three speaker-labelled lines of Scenario 6, separated by newlines\<close>
  "scenario_6 = ''John: Hello everyone!'' @ [CHR 0x0A] @ ''Mary: Hi John, how are you?''
                @ [CHR 0x0A] @ ''John: I'' @ [CHR 0x27] @ ''m doing great, thanks.''"

definition scenario_6_cleaned :: string where
  \<comment> \<open>the same text with each newline turned into a space\<close>
  "scenario_6_cleaned = ''John: Hello everyone! Mary: Hi John, how are you? John: I''
                        @ [CHR 0x27] @ ''m doing great, thanks.''"


definition const_libs :: libs where
  \<comment> \<open>stand-ins for the libraries in worked examples: fixed scores, the whole text as one sentence\<close>
  "const_libs =
     \<lparr>polarity_scores = (\<lambda>s. Inr \<lparr>neg = 0, neu = 1/2, pos = 1/2, compound = 1/2\<rparr>),
      blob_sentiment = (\<lambda>s. Inr \<lparr>tb_polarity = 1/4, tb_subjectivity = 1/2\<rparr>),
      blob_sentences = (\<lambda>s. Inr [s])\<rparr>"

fun split_on_runs :: "(char \<Rightarrow> bool) \<Rightarrow> bool \<Rightarrow> string \<Rightarrow> string list" where
  \<comment> \<open>splitting on runs, said directly: the fragments of a text between the maximal runs of
      separator characters; the flag tells whether the previous character was a separator\<close>
  "split_on_runs sep in_run [] = [[]]"
| "split_on_runs sep in_run (c # cs) =
     (if sep c then (if in_run then split_on_runs sep True cs else [] # split_on_runs sep True cs)
      else (case split_on_runs sep False cs of [] \<Rightarrow> [[c]] | f # fs \<Rightarrow> (c # f) # fs))"

definition is_sentence_end :: "char \<Rightarrow> bool" where
  "is_sentence_end c = (c = CHR ''.'' \<or> c = CHR ''!'' \<or> c = CHR ''?'')"

section \<open>The matcher\<close>

text \<open>Matching only moves the position forward inside the same text: the lengths and
  differences computed from matcher states are those of the text consumed.\<close>

lemma advances_refl: "advances st st"
  by (simp add: advances_def)

lemma advances_trans: "advances a b \<Longrightarrow> advances b c \<Longrightarrow> advances a c"
  by (simp add: advances_def)

lemma one_char_advances: "st' \<in> set (one_char ok st) \<Longrightarrow> advances st st'"
  by (cases st) (auto simp: one_char_def advances_def whole_def remaining_def split: list.splits if_splits)

lemma star_greedy_advances:
  assumes "\<And>a b. b \<in> set (step a) \<Longrightarrow> advances a b"
  shows "st' \<in> set (star_greedy n step st) \<Longrightarrow> advances st st'"
proof (induction n arbitrary: st)
  case 0
  then show ?case by (simp add: advances_refl)
next
  case (Suc n)
  from Suc.prems consider "st' = st"
    | m where "m \<in> set (step st)" "st' \<in> set (star_greedy n step m)"
    by auto
  then show ?case
  proof cases
    case 1
    then show ?thesis by (simp add: advances_refl)
  next
    case 2
    with assms Suc.IH show ?thesis by (blast intro: advances_trans)
  qed
qed

lemma star_lazy_advances:
  assumes "\<And>a b. b \<in> set (step a) \<Longrightarrow> advances a b"
  shows "st' \<in> set (star_lazy n step st) \<Longrightarrow> advances st st'"
proof (induction n arbitrary: st)
  case 0
  then show ?case by (simp add: advances_refl)
next
  case (Suc n)
  from Suc.prems consider "st' = st"
    | m where "m \<in> set (step st)" "st' \<in> set (star_lazy n step m)"
    by auto
  then show ?case
  proof cases
    case 1
    then show ?thesis by (simp add: advances_refl)
  next
    case 2
    with assms Suc.IH show ?thesis by (blast intro: advances_trans)
  qed
qed

lemma capture_advances: "advances st m \<Longrightarrow> advances st (capture n st m)"
  by (cases m) (simp add: capture_def advances_def whole_def remaining_def)

lemma rmatch_advances: "st' \<in> set (rmatch fl r st) \<Longrightarrow> advances st st'"
proof (induction r arbitrary: st st')
  case (Seq a b)
  from Seq.prems obtain m where "m \<in> set (rmatch fl a st)" "st' \<in> set (rmatch fl b m)"
    by auto
  with Seq.IH show ?case by (blast intro: advances_trans)
next
  case (Star a)
  then show ?case using star_greedy_advances [of "rmatch fl a"] by auto
next
  case (Lazy a)
  then show ?case using star_lazy_advances [of "rmatch fl a"] by auto
next
  case (Grp n a)
  from Grp.prems obtain m where "m \<in> set (rmatch fl a st)" "st' = capture n st m"
    by auto
  with Grp.IH show ?case by (simp add: capture_advances)
qed (auto simp: advances_refl one_char_advances split: if_splits)

text \<open>The bound on the number of iterations never cuts a repetition short: any bound from the
  length of the remaining text upwards gives the same matches.\<close>

lemma star_greedy_bound:
  "remaining st \<le> n \<Longrightarrow> star_greedy n step st = star_greedy (remaining st) step st"
proof (induction n arbitrary: st rule: less_induct)
  case (less n)
  have lower: "star_greedy k step m = star_greedy (remaining m) step m"
    if "remaining m \<le> k" "k < n" for k m
    using less.IH [of k m] that by simp
  show ?case
  proof (cases n)
    case 0
    with less.prems show ?thesis by simp
  next
    case (Suc k)
    show ?thesis
    proof (cases "remaining st")
      case 0
      with Suc show ?thesis by simp
    next
      case (Suc j)
      with less.prems \<open>n = Suc k\<close> have jk: "j \<le> k" by simp
      define F where "F = filter (\<lambda>m. remaining m < remaining st) (step st)"
      have "star_greedy k step m = star_greedy j step m" if "m \<in> set F" for m
      proof -
        from that Suc have rm: "remaining m \<le> j" by (simp add: F_def)
        with jk \<open>n = Suc k\<close> have "star_greedy k step m = star_greedy (remaining m) step m"
          by (intro lower) simp_all
        moreover from rm jk \<open>n = Suc k\<close> have "star_greedy j step m = star_greedy (remaining m) step m"
          by (intro lower) simp_all
        ultimately show ?thesis by simp
      qed
      then have meq: "map (star_greedy k step) F = map (star_greedy j step) F"
        by (intro map_cong) simp_all
      have "star_greedy n step st = concat (map (star_greedy k step) F) @ [st]"
        using \<open>n = Suc k\<close> by (simp add: F_def)
      also have "\<dots> = concat (map (star_greedy j step) F) @ [st]"
        by (simp only: meq)
      also have "\<dots> = star_greedy (remaining st) step st"
        using Suc by (simp add: F_def)
      finally show ?thesis .
    qed
  qed
qed

lemma star_lazy_bound:
  "remaining st \<le> n \<Longrightarrow> star_lazy n step st = star_lazy (remaining st) step st"
proof (induction n arbitrary: st rule: less_induct)
  case (less n)
  have lower: "star_lazy k step m = star_lazy (remaining m) step m"
    if "remaining m \<le> k" "k < n" for k m
    using less.IH [of k m] that by simp
  show ?case
  proof (cases n)
    case 0
    with less.prems show ?thesis by simp
  next
    case (Suc k)
    show ?thesis
    proof (cases "remaining st")
      case 0
      with Suc show ?thesis by simp
    next
      case (Suc j)
      with less.prems \<open>n = Suc k\<close> have jk: "j \<le> k" by simp
      define F where "F = filter (\<lambda>m. remaining m < remaining st) (step st)"
      have "star_lazy k step m = star_lazy j step m" if "m \<in> set F" for m
      proof -
        from that Suc have rm: "remaining m \<le> j" by (simp add: F_def)
        with jk \<open>n = Suc k\<close> have "star_lazy k step m = star_lazy (remaining m) step m"
          by (intro lower) simp_all
        moreover from rm jk \<open>n = Suc k\<close> have "star_lazy j step m = star_lazy (remaining m) step m"
          by (intro lower) simp_all
        ultimately show ?thesis by simp
      qed
      then have meq: "map (star_lazy k step) F = map (star_lazy j step) F"
        by (intro map_cong) simp_all
      have "star_lazy n step st = st # concat (map (star_lazy k step) F)"
        using \<open>n = Suc k\<close> by (simp add: F_def)
      also have "\<dots> = st # concat (map (star_lazy j step) F)"
        by (simp only: meq)
      also have "\<dots> = star_lazy (remaining st) step st"
        using Suc by (simp add: F_def)
      finally show ?thesis .
    qed
  qed
qed

section \<open>The sentiment label of a sentence\<close>



lemma scored_sentence_polarity:
  "polarity (scored_sentence a r v t) =
     (if use_vader a \<and> use_textblob a then v * 0.7 + t * 0.3 else if use_vader a then v else t)"
  by (simp add: scored_sentence_def Let_def)

lemma scored_sentence_confidence:
  "confidence (scored_sentence a r v t) = \<bar>polarity (scored_sentence a r v t)\<bar>"
  by (simp add: scored_sentence_def Let_def)

lemma vader_step_keeps:
  "vader_step a L r = Inr (r1, v) \<Longrightarrow>
     sentiment r1 = sentiment r \<and> polarity r1 = polarity r \<and> confidence r1 = confidence r"
  by (auto simp: vader_step_def split: if_splits sum.splits)

lemma textblob_step_keeps:
  "textblob_step a L r = Inr (r1, v) \<Longrightarrow>
     sentiment r1 = sentiment r \<and> polarity r1 = polarity r \<and> confidence r1 = confidence r"
  by (auto simp: textblob_step_def split: if_splits sum.splits)

text \<open>A sentence either went through the scoring of lines 166 to 203, or one of the libraries
  raised and the record kept its initial Neutral label, polarity 0 and confidence 0.\<close>

lemma analyze_sentence_cases:
  "(\<exists>r v t. vader_step a L (sentence_init s) = Inr (r, v) \<and>
            (\<exists>r'. textblob_step a L r = Inr (r', t) \<and>
                   fst (analyze_sentence a L s lg) = scored_sentence a r' v t))
   \<or> (sentiment (fst (analyze_sentence a L s lg)) = Neutral
      \<and> polarity (fst (analyze_sentence a L s lg)) = 0
      \<and> confidence (fst (analyze_sentence a L s lg)) = 0)"
proof (cases "vader_step a L (sentence_init s)")
  case (Inl msg)
  then show ?thesis
    by (simp add: analyze_sentence_def sentence_failed_def sentence_init_def)
next
  case (Inr p)
  obtain r1 v where p: "p = (r1, v)" by (cases p)
  from Inr p have keeps: "sentiment r1 = Neutral" "polarity r1 = 0" "confidence r1 = 0"
    using vader_step_keeps [of a L "sentence_init s" r1 v] by (simp_all add: sentence_init_def)
  show ?thesis
  proof (cases "textblob_step a L r1")
    case (Inl msg)
    with Inr p keeps show ?thesis
      by (simp add: analyze_sentence_def sentence_failed_def)
  next
    case (Inr q)
    obtain r2 t where "q = (r2, t)" by (cases q)
    with Inr \<open>vader_step a L (sentence_init s) = Inr p\<close> p show ?thesis
      by (auto simp: analyze_sentence_def)
  qed
qed





section \<open>The document-level sentiment\<close>

lemma weigh_sums:
  "weigh rs (tw, ws) =
     (tw + sum_list (map confidence rs), ws + sum_list (map (\<lambda>r. polarity r * confidence r) rs))"
  by (induction rs arbitrary: tw ws) (simp_all add: Let_def algebra_simps)

lemma overall_confidence_value:
  "os_confidence (calculate_overall_sentiment rs) =
     (if sum_list (map confidence rs) = 0 then 0
      else min (sum_list (map confidence rs) / real (length rs)) 1)"
  by (cases "rs = []") (simp_all add: calculate_overall_sentiment_def weigh_sums Let_def)

text \<open>
  Claim C5. With \<open>W\<close> the sum of the per-sentence confidences and \<open>S\<close> the sum of the
  per-sentence polarities weighted by confidence: when \<open>W\<close> is zero (in particular for no
  sentence at all) the overall result is Neutral with score 0 and confidence 0; otherwise the
  score is the weighted mean \<open>S / W\<close>, labelled by the same thresholds, and the confidence is
  \<open>W\<close> divided by the number of sentences, capped at 1.
\<close>

theorem overall_is_weighted_mean:
  "calculate_overall_sentiment rs =
     (let W = sum_list (map confidence rs);
          S = sum_list (map (\<lambda>r. polarity r * confidence r) rs)
      in if W = 0 then \<lparr>os_overall = Neutral, os_score = 0, os_confidence = 0\<rparr>
         else \<lparr>os_overall = sentiment_label (S / W), os_score = S / W,
               os_confidence = min (W / real (length rs)) 1\<rparr>)"
  by (cases "rs = []") (simp_all add: calculate_overall_sentiment_def weigh_sums Let_def)

section \<open>The confidence of an insight\<close>

lemma starts_with_iff: "starts_with s p = (\<exists>v. s = p @ v)"
  by (induction s p rule: starts_with.induct) auto

text \<open>\<open>str_contains s p\<close> is Python's \<open>p in s\<close>: \<open>p\<close> occurs somewhere inside \<open>s\<close>.\<close>

lemma str_contains_iff: "str_contains s p = (\<exists>u v. s = u @ p @ v)"
proof (induction s)
  case Nil
  then show ?case by auto
next
  case (Cons c cs)
  show ?case
  proof
    assume "str_contains (c # cs) p"
    then consider "starts_with (c # cs) p" | "str_contains cs p" by auto
    then show "\<exists>u v. c # cs = u @ p @ v"
    proof cases
      case 1
      then obtain v where "c # cs = p @ v" by (auto simp: starts_with_iff)
      then have "c # cs = [] @ p @ v" by simp
      then show ?thesis by blast
    next
      case 2
      with Cons obtain u v where "cs = u @ p @ v" by auto
      then have "c # cs = (c # u) @ p @ v" by simp
      then show ?thesis by blast
    qed
  next
    assume "\<exists>u v. c # cs = u @ p @ v"
    then obtain u v where uv: "c # cs = u @ p @ v" by blast
    show "str_contains (c # cs) p"
    proof (cases u)
      case Nil
      with uv have "starts_with (c # cs) p" by (auto simp: starts_with_iff)
      then show ?thesis by simp
    next
      case (Cons d ds)
      with uv have "cs = ds @ p @ v" by simp
      with Cons.IH have "str_contains cs p" by blast
      then show ?thesis by simp
    qed
  qed
qed






section \<open>Deduplication of insights\<close>

lemma dedup_loop_Cons:
  "dedup_loop (x # xs) u seen =
     (if text_key x \<notin> seen then dedup_loop xs (u @ [x]) (insert (text_key x) seen)
      else dedup_loop xs u seen)"
  by (simp add: text_key_def Let_def)

lemma dedup_loop_distinct:
  "distinct (map text_key u) \<Longrightarrow> seen = set (map text_key u) \<Longrightarrow>
   distinct (map text_key (dedup_loop xs u seen))"
proof (induction xs arbitrary: u seen)
  case Nil
  then show ?case by simp
next
  case (Cons x xs)
  show ?case
  proof (cases "text_key x \<in> seen")
    case True
    with Cons show ?thesis by (simp add: dedup_loop_Cons del: dedup_loop.simps)
  next
    case False
    have "distinct (map text_key (dedup_loop xs (u @ [x]) (insert (text_key x) seen)))"
      using Cons.prems False by (intro Cons.IH) auto
    with False show ?thesis by (simp add: dedup_loop_Cons del: dedup_loop.simps)
  qed
qed

lemma dedup_loop_keys:
  "seen = set (map text_key u) \<Longrightarrow>
   set (map text_key (dedup_loop xs u seen)) = set (map text_key u) \<union> set (map text_key xs)"
proof (induction xs arbitrary: u seen)
  case Nil
  then show ?case by simp
next
  case (Cons x xs)
  show ?case
  proof (cases "text_key x \<in> seen")
    case True
    with Cons.prems have "set (map text_key (dedup_loop xs u seen)) = set (map text_key u) \<union> set (map text_key xs)"
      by (intro Cons.IH) simp
    with True Cons.prems show ?thesis by (auto simp: dedup_loop_Cons simp del: dedup_loop.simps)
  next
    case False
    have "set (map text_key (dedup_loop xs (u @ [x]) (insert (text_key x) seen)))
          = set (map text_key (u @ [x])) \<union> set (map text_key xs)"
      using Cons.prems by (intro Cons.IH) auto
    with False show ?thesis by (auto simp: dedup_loop_Cons simp del: dedup_loop.simps)
  qed
qed

lemma dedup_loop_subset: "set (dedup_loop xs u seen) \<subseteq> set u \<union> set xs"
proof (induction xs arbitrary: u seen)
  case Nil
  then show ?case by simp
next
  case (Cons x xs)
  from Cons [of "u @ [x]" "insert (text_key x) seen"] Cons [of u seen]
  show ?case by (auto simp: dedup_loop_Cons simp del: dedup_loop.simps)
qed

lemma deduplicate_distinct: "distinct (map text_key (deduplicate_insights xs))"
  by (simp add: deduplicate_insights_def dedup_loop_distinct)

lemma deduplicate_keys: "set (map text_key (deduplicate_insights xs)) = set (map text_key xs)"
  using dedup_loop_keys [of "{}" "[]" xs] by (simp add: deduplicate_insights_def)

lemma distinct_map_sort_key:
  "distinct (map f (sort_key g xs)) = distinct (map f xs)"
  by (simp add: distinct_map)

lemma by_type_distinct: "distinct (map text_key (extract_insights_by_type txt ty))"
  by (simp add: extract_insights_by_type_def Let_def distinct_map_sort_key deduplicate_distinct)

lemma by_type_keys:
  "set (map text_key (extract_insights_by_type txt ty)) = set (map text_key (candidate_insights txt ty))"
  using deduplicate_keys [of "candidate_insights txt ty"]
  by (simp add: extract_insights_by_type_def Let_def)

text \<open>The loop with its set of seen texts keeps, of the insights with one lower-cased text, the
  first in scan order.\<close>

lemma filter_keys:
  "filter (\<lambda>y. text_key y \<noteq> k) (filter (\<lambda>y. text_key y \<notin> seen) xs)
   = filter (\<lambda>y. text_key y \<notin> insert k seen) xs"
  by (induction xs) auto

lemma dedup_loop_keep_first:
  "dedup_loop xs u seen = u @ keep_first (filter (\<lambda>y. text_key y \<notin> seen) xs)"
proof (induction xs arbitrary: u seen)
  case Nil
  then show ?case by simp
next
  case (Cons x xs)
  show ?case
  proof (cases "text_key x \<in> seen")
    case True
    with Cons [of u seen] show ?thesis
      by (simp add: dedup_loop_Cons del: dedup_loop.simps)
  next
    case False
    with Cons [of "u @ [x]" "insert (text_key x) seen"] show ?thesis
      by (simp add: dedup_loop_Cons filter_keys conj_commute del: dedup_loop.simps)
  qed
qed

lemma deduplicate_keep_first: "deduplicate_insights xs = keep_first xs"
  by (simp add: deduplicate_insights_def dedup_loop_keep_first)

lemma texts_of_by_type:
  "texts_of (map (\<lambda>ty. (type_value ty, f ty)) all_types) ty = map i_text (f ty)"
  by (cases ty) (simp_all add: texts_of_def all_types_def)

lemma lower_texts: "str_lower \<circ> i_text = text_key"
  by (simp add: fun_eq_iff text_key_def)

text \<open>The lists of texts computed for the report (lines 168 to 173) hold no two texts equal up
  to case.\<close>

lemma report_texts_distinct:
  "distinct (map str_lower
     (texts_of (map (\<lambda>ty. (type_value ty, extract_insights_by_type txt ty)) all_types) ty))"
  by (simp add: texts_of_by_type lower_texts by_type_distinct)

section \<open>What \<open>extract_insights\<close> returns\<close>

text \<open>
  Building \<open>detailed_insights\<close> raises on every valid transcript: there are six insight
  types, so \<open>insights_by_type\<close> is never empty. The exception is caught, and the report
  returned is the empty one with the message of the exception. Whatever the input, a report
  that \<open>extract_insights\<close> returns is therefore an empty result.
\<close>

lemma build_report_raises:
  "build_report (map (\<lambda>ty. (type_value ty, f ty)) all_types) = Inl (AttributeError ''str'' ''value'')"
  by (simp add: build_report_def detailed_insights_of_def all_types_def Let_def)

lemma extract_insights_valid:
  assumes "validate_transcript x = Inr v" and "is_valid v"
  shows "extract_insights x lg =
           (Inr (insights_empty_result
                   (Some (''Extraction error: '' @ exn_str (AttributeError ''str'' ''value'')))),
            lg @ [LogError ''Insight extraction error'' (exn_str (AttributeError ''str'' ''value''))])"
  using assms by (simp add: extract_insights_def Let_def build_report_raises)

lemma extract_insights_empty:
  assumes "extract_insights x lg = (Inr r, lg')"
  shows "\<exists>err. r = insights_empty_result err"
proof (cases "validate_transcript x")
  case (Inl e)
  with assms show ?thesis by (simp add: extract_insights_def)
next
  case (Inr v)
  show ?thesis
  proof (cases "is_valid v")
    case False
    with Inr assms show ?thesis by (auto simp: extract_insights_def)
  next
    case True
    from extract_insights_valid [OF Inr True, of lg] assms show ?thesis by auto
  qed
qed

text \<open>
  Claim C8. Within a type no two insights have the same lower-cased text. The insights of a
  type are the candidates of which each is the first in scan order with its lower-cased text
  (\<open>keep_first\<close>), sorted by descending confidence: their lower-cased texts are pairwise
  different, and every lower-cased text among the candidates is still present, so a
  candidate is dropped only for an exact match up to case. In a report returned by
  \<open>extract_insights\<close> the six lists of texts hold no two texts equal up to case either.
\<close>

theorem no_case_identical_insights:
  "extract_insights_by_type doc ty
     = sort_key (\<lambda>i. - i_confidence i) (keep_first (candidate_insights doc ty))
   \<and> distinct (map text_key (extract_insights_by_type doc ty))
   \<and> set (map text_key (extract_insights_by_type doc ty))
       = set (map text_key (candidate_insights doc ty))
   \<and> (extract_insights x lg = (Inr r, lg') \<longrightarrow>
         distinct (map str_lower (problems r)) \<and> distinct (map str_lower (solutions r))
       \<and> distinct (map str_lower (action_items r)) \<and> distinct (map str_lower (opportunities r))
       \<and> distinct (map str_lower (risks r)) \<and> distinct (map str_lower (decisions r)))"
proof (intro conjI impI)
  show "extract_insights_by_type doc ty
     = sort_key (\<lambda>i. - i_confidence i) (keep_first (candidate_insights doc ty))"
    by (simp add: extract_insights_by_type_def Let_def deduplicate_keep_first)
  show "distinct (map text_key (extract_insights_by_type doc ty))"
    by (rule by_type_distinct)
  show "set (map text_key (extract_insights_by_type doc ty))
       = set (map text_key (candidate_insights doc ty))"
    by (rule by_type_keys)
next
  assume "extract_insights x lg = (Inr r, lg')"
  then obtain err where r: "r = insights_empty_result err"
    using extract_insights_empty by blast
  show "distinct (map str_lower (problems r))" "distinct (map str_lower (solutions r))"
    "distinct (map str_lower (action_items r))" "distinct (map str_lower (opportunities r))"
    "distinct (map str_lower (risks r))" "distinct (map str_lower (decisions r))"
    by (simp_all add: r insights_empty_result_def)
qed

section \<open>Confidence values\<close>

lemma insight_confidence_unit: "unit_conf (calculate_insight_confidence txt config)"
  by (simp add: calculate_insight_confidence_def Let_def unit_conf_def min_def)

text \<open>What holds of every insight that \<open>_create_insight\<close> builds holds of every insight of a
  type: the loops only collect such insights, deduplication and sorting only select and
  reorder them.\<close>

lemma matches_loop_inv:
  assumes "\<And>t i. create_insight t ty config txt = Some i \<Longrightarrow> Q i"
  shows "list_all Q acc \<Longrightarrow> list_all Q (matches_loop ty config txt ms acc)"
proof (induction ms arbitrary: acc)
  case Nil
  then show ?case by simp
next
  case (Cons m ms)
  show ?case
  proof (cases "is_valid_insight (clean_insight_text m)")
    case False
    with Cons show ?thesis by (simp add: Let_def)
  next
    case True
    show ?thesis
    proof (cases "create_insight (clean_insight_text m) ty config txt")
      case None
      with True Cons show ?thesis by (simp add: Let_def)
    next
      case (Some i)
      with assms have "Q i" by blast
      with Cons.prems have "list_all Q (acc @ [i])" by simp
      from Cons.IH [OF this] True Some show ?thesis by (simp add: Let_def)
    qed
  qed
qed

lemma patterns_loop_inv:
  assumes "\<And>t i. create_insight t ty config txt = Some i \<Longrightarrow> Q i"
  shows "list_all Q acc \<Longrightarrow> list_all Q (patterns_loop ty config txt ps acc)"
proof (induction ps arbitrary: acc)
  case Nil
  then show ?case by simp
next
  case (Cons p ps)
  have "list_all Q (matches_loop ty config txt
      (re_findall IGNORECASE_MULTILINE p txt) acc)"
    by (rule matches_loop_inv) (use assms Cons.prems in blast)+
  from Cons.IH [OF this] show ?case by simp
qed

lemma deduplicate_subset: "set (deduplicate_insights xs) \<subseteq> set xs"
  using dedup_loop_subset [of xs "[]" "{}"] by (simp add: deduplicate_insights_def)

lemma by_type_subset: "set (extract_insights_by_type txt ty) \<subseteq> set (candidate_insights txt ty)"
  using deduplicate_subset [of "candidate_insights txt ty"]
  by (simp add: extract_insights_by_type_def Let_def)

lemma by_type_inv:
  assumes "\<And>t i. create_insight t ty (initialize_patterns ty) txt = Some i \<Longrightarrow> Q i"
  shows "list_all Q (extract_insights_by_type txt ty)"
proof -
  have "list_all Q (patterns_loop ty (initialize_patterns ty) txt
                      (patterns (initialize_patterns ty)) [])"
    by (rule patterns_loop_inv) (use assms in auto)
  then have "list_all Q (candidate_insights txt ty)"
    by (simp add: candidate_insights_def Let_def)
  with by_type_subset [of "txt" ty] show ?thesis
    unfolding list_all_iff by blast
qed

lemma by_type_confidence:
  "list_all (\<lambda>i. unit_conf (i_confidence i)
               \<and> i_confidence i = calculate_insight_confidence (i_text i) (initialize_patterns ty))
     (extract_insights_by_type txt ty)"
  by (rule by_type_inv) (auto simp: create_insight_def Let_def insight_confidence_unit)

lemma vader_step_bound:
  assumes "\<And>s v. polarity_scores L s = Inr v \<Longrightarrow> \<bar>compound v\<bar> \<le> 1"
      and "vader_step a L r = Inr (r1, c)"
  shows "\<bar>c\<bar> \<le> 1"
  using assms by (auto simp: vader_step_def split: if_splits sum.splits)

lemma textblob_step_bound:
  assumes "\<And>s t. blob_sentiment L s = Inr t \<Longrightarrow> \<bar>tb_polarity t\<bar> \<le> 1"
      and "textblob_step a L r = Inr (r1, c)"
  shows "\<bar>c\<bar> \<le> 1"
  using assms by (auto simp: textblob_step_def split: if_splits sum.splits)

lemma scored_sentence_unit:
  assumes "\<bar>v\<bar> \<le> 1" and "\<bar>t\<bar> \<le> 1"
  shows "unit_conf (confidence (scored_sentence a r v t))"
proof -
  have "\<bar>v * 0.7 + t * 0.3\<bar> \<le> 1" using assms by (simp add: abs_le_iff)
  with assms show ?thesis
    by (simp add: scored_sentence_confidence scored_sentence_polarity unit_conf_def)
qed

lemma analyze_sentence_abs:
  "confidence (fst (analyze_sentence a L s lg)) = \<bar>polarity (fst (analyze_sentence a L s lg))\<bar>"
  using analyze_sentence_cases [of a L s lg] by (auto simp: scored_sentence_confidence)

lemma analyze_sentence_unit:
  assumes "\<And>s v. polarity_scores L s = Inr v \<Longrightarrow> \<bar>compound v\<bar> \<le> 1"
      and "\<And>s t. blob_sentiment L s = Inr t \<Longrightarrow> \<bar>tb_polarity t\<bar> \<le> 1"
  shows "unit_conf (confidence (fst (analyze_sentence a L s lg)))"
  using analyze_sentence_cases [of a L s lg]
proof
  assume "\<exists>r v t. vader_step a L (sentence_init s) = Inr (r, v) \<and>
            (\<exists>r'. textblob_step a L r = Inr (r', t) \<and>
                   fst (analyze_sentence a L s lg) = scored_sentence a r' v t)"
  then obtain r v t r' where "vader_step a L (sentence_init s) = Inr (r, v)"
    "textblob_step a L r = Inr (r', t)" "fst (analyze_sentence a L s lg) = scored_sentence a r' v t"
    by blast
  with assms show ?thesis
    using vader_step_bound [of L a "sentence_init s" r v] textblob_step_bound [of L a r r' t]
    by (simp add: scored_sentence_unit)
next
  assume "sentiment (fst (analyze_sentence a L s lg)) = Neutral
      \<and> polarity (fst (analyze_sentence a L s lg)) = 0
      \<and> confidence (fst (analyze_sentence a L s lg)) = 0"
  then show ?thesis by (simp add: unit_conf_def)
qed

lemma analyze_loop_inv:
  assumes "\<And>s lg. Q (fst (analyze_sentence a L s lg))"
  shows "list_all Q rs \<Longrightarrow> list_all Q (fst (analyze_loop a L ss rs lg))"
proof (induction ss arbitrary: rs lg)
  case Nil
  then show ?case by simp
next
  case (Cons s ss)
  obtain r l1 where 1: "analyze_sentence a L s lg = (r, l1)" by (cases "analyze_sentence a L s lg")
  with assms [of s lg] have "Q r" by simp
  with Cons.prems have "list_all Q (rs @ [r])" by simp
  from Cons.IH [OF this, of l1] 1 show ?case by simp
qed

lemma sum_list_unit:
  "list_all (\<lambda>r. unit_conf (confidence r)) rs \<Longrightarrow> 0 \<le> sum_list (map confidence rs)"
  by (induction rs) (auto simp: unit_conf_def)

lemma overall_unit:
  assumes "list_all (\<lambda>r. unit_conf (confidence r)) rs"
  shows "unit_conf (os_confidence (calculate_overall_sentiment rs))"
proof -
  have "0 \<le> sum_list (map confidence rs) / real (length rs)"
    using sum_list_unit [OF assms] by simp
  then show ?thesis
    by (simp add: overall_confidence_value unit_conf_def)
qed

text \<open>
  Claim C7. Every confidence value lies between 0 and 1. In a result of \<open>analyze\<close>: the
  overall confidence, which is the one computed from the sentences, and each sentence's
  confidence, which is the absolute value of its polarity. For the insights: the confidence
  of every insight extracted for a type, which is the value of
  \<open>_calculate_insight_confidence\<close> on its text. In a report returned by \<open>extract_insights\<close>:
  the extraction confidence and the confidence of every detailed insight. A sentence's
  confidence is the absolute value of a blend of the two library scores, so its upper bound
  rests on the ranges the libraries document: VADER's compound score and TextBlob's polarity
  both lie between -1 and 1.
\<close>

theorem confidences_in_unit_interval:
  assumes vader: "\<And>s v. polarity_scores L s = Inr v \<Longrightarrow> \<bar>compound v\<bar> \<le> 1"
      and blob: "\<And>s t. blob_sentiment L s = Inr t \<Longrightarrow> \<bar>tb_polarity t\<bar> \<le> 1"
  shows "(analyze a L x lg = (Inr r, lg') \<longrightarrow>
            0 \<le> result_confidence r \<and> result_confidence r \<le> 1
          \<and> result_confidence r = os_confidence (calculate_overall_sentiment (sentences r))
          \<and> list_all (\<lambda>s. 0 \<le> confidence s \<and> confidence s \<le> 1 \<and> confidence s = \<bar>polarity s\<bar>)
               (sentences r))
       \<and> list_all (\<lambda>i. 0 \<le> i_confidence i \<and> i_confidence i \<le> 1
                      \<and> i_confidence i
                          = calculate_insight_confidence (i_text i) (initialize_patterns ty))
            (extract_insights_by_type doc ty)
       \<and> (extract_insights x lg = (Inr rep, lg'') \<longrightarrow>
            0 \<le> extraction_confidence (metadata rep) \<and> extraction_confidence (metadata rep) \<le> 1
          \<and> list_all (\<lambda>(k, ds). list_all (\<lambda>d. 0 \<le> d_confidence d \<and> d_confidence d \<le> 1) ds)
               (detailed_insights rep))"
proof (intro conjI impI)
  assume an: "analyze a L x lg = (Inr r, lg')"
  let ?Q = "\<lambda>s. unit_conf (confidence s) \<and> confidence s = \<bar>polarity s\<bar>"
  have "unit_conf (result_confidence r)
      \<and> result_confidence r = os_confidence (calculate_overall_sentiment (sentences r))
      \<and> list_all ?Q (sentences r)"
  proof (cases "validate_transcript x")
    case (Inl e)
    with an show ?thesis by (simp add: analyze_def)
  next
    case (Inr v)
    show ?thesis
    proof (cases "is_valid v")
      case False
      with Inr an have "r = sentiment_empty_result (error v)" by (simp add: analyze_def)
      then show ?thesis
        by (simp add: sentiment_empty_result_def unit_conf_def calculate_overall_sentiment_def)
    next
      case True
      show ?thesis
      proof (cases "sa_extract_sentences L (transcript v)")
        case (Inl msg)
        with True Inr an have "r = sentiment_empty_result (Some (''Analysis error: '' @ msg))"
          by (simp add: analyze_def)
        then show ?thesis
          by (simp add: sentiment_empty_result_def unit_conf_def calculate_overall_sentiment_def)
      next
        case ss: (Inr ss)
        obtain rs l1 where 1: "analyze_loop a L ss [] lg = (rs, l1)"
          by (cases "analyze_loop a L ss [] lg")
        have q: "?Q (fst (analyze_sentence a L s l))" for s l
          using analyze_sentence_unit [of L a s l] analyze_sentence_abs [of a L s l] vader blob
          by blast
        have "list_all ?Q (fst (analyze_loop a L ss [] lg))"
        proof (rule analyze_loop_inv)
          show "?Q (fst (analyze_sentence a L s l))" for s l by (rule q)
          show "list_all ?Q []" by simp
        qed
        with 1 have rs: "list_all ?Q rs" by simp
        then have u: "list_all (\<lambda>r. unit_conf (confidence r)) rs"
          unfolding list_all_iff by blast
        from 1 True Inr ss an have "sentences r = rs"
          "result_confidence r = os_confidence (calculate_overall_sentiment rs)"
          by (auto simp: analyze_def Let_def)
        with rs overall_unit [OF u] show ?thesis by simp
      qed
    qed
  qed
  then show "0 \<le> result_confidence r" "result_confidence r \<le> 1"
    "result_confidence r = os_confidence (calculate_overall_sentiment (sentences r))"
    "list_all (\<lambda>s. 0 \<le> confidence s \<and> confidence s \<le> 1 \<and> confidence s = \<bar>polarity s\<bar>)
       (sentences r)"
    by (simp_all add: unit_conf_def conj_assoc)
next
  show "list_all (\<lambda>i. 0 \<le> i_confidence i \<and> i_confidence i \<le> 1
                      \<and> i_confidence i
                          = calculate_insight_confidence (i_text i) (initialize_patterns ty))
            (extract_insights_by_type doc ty)"
    using by_type_confidence [of ty doc] by (simp add: unit_conf_def conj_assoc)
next
  assume "extract_insights x lg = (Inr rep, lg'')"
  then obtain err where rep: "rep = insights_empty_result err"
    using extract_insights_empty by blast
  show "0 \<le> extraction_confidence (metadata rep)" "extraction_confidence (metadata rep) \<le> 1"
    "list_all (\<lambda>(k, ds). list_all (\<lambda>d. 0 \<le> d_confidence d \<and> d_confidence d \<le> 1) ds)
       (detailed_insights rep)"
    by (simp_all add: rep insights_empty_result_def)
qed

section \<open>Invalid input\<close>

lemma validate_str_empty:
  "str_strip s = [] \<Longrightarrow>
   validate_transcript (PStr s) = Inr (validation_init\<lparr>error := Some ''Transcript is empty''\<rparr>)"
  by (simp add: validate_transcript_def validate_text_def strip_method_def)

lemma validate_str_no_alpha:
  "str_strip s \<noteq> [] \<Longrightarrow> \<not> re_search no_flags alpha_cls (str_strip s) \<Longrightarrow>
   \<exists>v. validate_transcript (PStr s) = Inr v \<and> \<not> is_valid v
       \<and> error v = Some ''Transcript contains no alphabetic characters''"
  by (simp add: validate_transcript_def validate_text_def strip_method_def Let_def
      validation_init_def)

lemma validate_str_valid:
  "str_strip s \<noteq> [] \<Longrightarrow> re_search no_flags alpha_cls (str_strip s) \<Longrightarrow>
   \<exists>v. validate_transcript (PStr s) = Inr v \<and> is_valid v \<and> transcript v = str_strip s"
  by (simp add: validate_transcript_def validate_text_def strip_method_def Let_def)

lemma validate_none:
  "validate_transcript PNone = Inr (validation_init\<lparr>error := Some ''Transcript cannot be None''\<rparr>)"
  by (simp add: validate_transcript_def)

lemma validate_other:
  "x \<noteq> PNone \<Longrightarrow> (\<forall>s. x \<noteq> PStr s) \<Longrightarrow> (\<forall>kvs. x = PDict kvs \<longrightarrow> map_of kvs ''text'' = None) \<Longrightarrow>
   validate_transcript x =
     Inr (validation_init\<lparr>error := Some (''Transcript must be a string, received '' @ type_name x)\<rparr>)"
  by (cases x) (simp_all add: validate_transcript_def)

lemma validate_dict_text:
  "map_of kvs ''text'' = Some (PStr s) \<Longrightarrow>
   validate_transcript (PDict kvs) = validate_transcript (PStr s)"
  by (simp add: validate_transcript_def)

lemma invalid_is_recovered:
  assumes "validate_transcript x = Inr v" and "\<not> is_valid v"
  shows "analyze a L x lg = (Inr (sentiment_empty_result (error v)),
                             lg @ [LogWarning ''Invalid transcript'' (error v)])"
    and "extract_insights x lg = (Inr (insights_empty_result (error v)),
                                  lg @ [LogWarning ''Invalid transcript'' (error v)])"
  using assms by (simp_all add: analyze_def extract_insights_def)

text \<open>A search for one character class succeeds exactly when some character of the text is
  in the class; for \<open>[a-zA-Z]\<close> that is an ASCII letter.\<close>

lemma match_at_cls:
  "match_at fl (Cls items) pre (c # cs) = (if cls_has fl items c then Some (1, []) else None)"
  by (simp add: match_at_def one_char_def remaining_def)

lemma finditer_go_cls:
  "(finditer_go fl (Cls items) 0 i pre s \<noteq> []) = (\<exists>c \<in> set s. cls_has fl items c)"
proof (induction s arbitrary: i pre)
  case Nil
  then show ?case by (simp add: match_at_def one_char_def)
next
  case (Cons c cs)
  then show ?case by (simp add: match_at_cls)
qed

lemma re_search_alpha:
  "re_search no_flags alpha_cls s = (\<exists>c \<in> set s. isalpha_ascii c)"
proof -
  have "cls_has no_flags [CRange CHR ''a'' CHR ''z'', CRange CHR ''A'' CHR ''Z''] c = isalpha_ascii c"
    for c
    by (simp add: cls_has_def no_flags_def isalpha_ascii_def islower_ascii_def isupper_ascii_def
        in_range_def code_def)
  then show ?thesis
    by (simp add: re_search_def re_finditer_def alpha_cls_def finditer_go_cls)
qed

text \<open>The inputs on which Claim C2 does hold: \<open>None\<close>, a value that is neither a string nor a
  dictionary with a \<open>text\<close> key, a string that is empty once trimmed, a string without a
  letter. Both entry points return their empty result with the error of the validation.\<close>

lemma invalid_inputs_recovered:
  assumes "x = PNone
         \<or> (x \<noteq> PNone \<and> (\<forall>s. x \<noteq> PStr s) \<and> (\<forall>kvs. x = PDict kvs \<longrightarrow> map_of kvs ''text'' = None))
         \<or> (\<exists>s. x = PStr s \<and> (str_strip s = [] \<or> \<not> (\<exists>c \<in> set (str_strip s). isalpha_ascii c)))"
  shows "\<exists>msg. analyze a L x lg = (Inr (sentiment_empty_result (Some msg)),
                                    lg @ [LogWarning ''Invalid transcript'' (Some msg)])
             \<and> extract_insights x lg = (Inr (insights_empty_result (Some msg)),
                                         lg @ [LogWarning ''Invalid transcript'' (Some msg)])"
proof -
  have "\<exists>v msg. validate_transcript x = Inr v \<and> \<not> is_valid v \<and> error v = Some msg"
    using assms
  proof (elim disjE exE conjE)
    assume "x = PNone"
    then show ?thesis by (simp add: validate_none validation_init_def)
  next
    assume "x \<noteq> PNone" "\<forall>s. x \<noteq> PStr s" "\<forall>kvs. x = PDict kvs \<longrightarrow> map_of kvs ''text'' = None"
    then show ?thesis using validate_other [of x] by (simp add: validation_init_def)
  next
    fix s assume "x = PStr s" "str_strip s = []"
    then show ?thesis by (simp add: validate_str_empty validation_init_def)
  next
    fix s assume x: "x = PStr s" and "\<not> (\<exists>c \<in> set (str_strip s). isalpha_ascii c)"
    then have na: "\<not> re_search no_flags alpha_cls (str_strip s)" by (simp add: re_search_alpha)
    show ?thesis
    proof (cases "str_strip s = []")
      case True
      with x show ?thesis by (simp add: validate_str_empty validation_init_def)
    next
      case False
      with na x validate_str_no_alpha [of s] show ?thesis by auto
    qed
  qed
  then obtain v msg where v: "validate_transcript x = Inr v" "\<not> is_valid v"
    and msg: "error v = Some msg"
    by blast
  from invalid_is_recovered [OF v] msg show ?thesis by simp
qed

text \<open>
  Claim C2 holds on \<open>None\<close>, on a value that is neither a string nor a dictionary, on a
  dictionary without a \<open>text\<close> key, on an empty string and on a string without a letter
  (the lemmas above). It fails on a dictionary whose \<open>text\<close> value is not a string: the value
  is taken as the transcript unchecked, \<open>strip\<close> raises AttributeError, and the call sits
  before the \<open>try\<close> of both entry points, so the exception reaches the caller.
\<close>

theorem nonstring_text_value_raises:
  "analyze a L (PDict [(''text'', PInt 5)]) lg = (Inl (AttributeError ''int'' ''strip''), lg)
   \<and> extract_insights (PDict [(''text'', PInt 5)]) lg = (Inl (AttributeError ''int'' ''strip''), lg)"
  by (simp add: analyze_def extract_insights_def validate_transcript_def validate_text_def
      strip_method_def)

text \<open>
  Claim C10. A dictionary whose \<open>text\<close> value is a string is validated as that string
  (\<open>validate_dict_text\<close>), and a value that is neither a string, \<open>None\<close> nor a dictionary with
  a \<open>text\<close> key is rejected with the type message (\<open>validate_other\<close>). A dictionary whose
  \<open>text\<close> value is not a string is not rejected: \<open>validate_transcript\<close> raises.
\<close>

theorem dict_with_none_text_raises:
  "validate_transcript (PDict [(''text'', PNone)]) = Inl (AttributeError ''NoneType'' ''strip'')"
  by (simp add: validate_transcript_def validate_text_def strip_method_def)

section \<open>Sentence extraction of the Text Normalizer\<close>

text \<open>The split of \<open>re\<close> on the pattern \<open>[.!?]+\<close> is the split on maximal runs of the three
  characters. First the matcher: \<open>c+\<close> for a class takes the whole run at once.\<close>

lemma rmatch_cls_fun: "rmatch fl (Cls items) = one_char (cls_has fl items)"
  by (rule ext) simp

lemma one_char_simps:
  "one_char P (pre, [], caps) = []"
  "one_char P (pre, c # cs, caps) = (if P c then [(c # pre, cs, caps)] else [])"
  by (simp_all add: one_char_def)

lemma star_greedy_run:
  "length rest \<le> n \<Longrightarrow>
   \<exists>more. star_greedy n (one_char P) (pre, rest, caps)
           = (rev (takeWhile P rest) @ pre, dropWhile P rest, caps) # more"
proof (induction n arbitrary: pre rest)
  case 0
  then show ?case by simp
next
  case (Suc n)
  show ?case
  proof (cases rest)
    case Nil
    then show ?thesis by (simp add: one_char_simps)
  next
    case (Cons c cs)
    show ?thesis
    proof (cases "P c")
      case False
      with Cons show ?thesis by (simp add: one_char_simps)
    next
      case True
      from Suc.prems Cons have "length cs \<le> n" by simp
      from Suc.IH [OF this, of "c # pre"] obtain more where
        "star_greedy n (one_char P) (c # pre, cs, caps)
         = (rev (takeWhile P cs) @ c # pre, dropWhile P cs, caps) # more" by blast
      with True Cons show ?thesis by (simp add: one_char_simps remaining_def)
    qed
  qed
qed

lemma length_run: "length cs - length (dropWhile P cs) = length (takeWhile P cs)"
proof -
  have "length cs = length (takeWhile P cs) + length (dropWhile P cs)"
    by (metis length_append takeWhile_dropWhile_id)
  then show ?thesis by simp
qed

lemma match_at_plus_cls:
  "match_at fl (plus (Cls items)) pre rest =
     (case rest of [] \<Rightarrow> None
      | c # cs \<Rightarrow> if cls_has fl items c
                 then Some (Suc (length (takeWhile (cls_has fl items) cs)), []) else None)"
proof (cases rest)
  case Nil
  then show ?thesis by (simp add: match_at_def plus_def one_char_simps)
next
  case (Cons c cs)
  show ?thesis
  proof (cases "cls_has fl items c")
    case False
    with Cons show ?thesis by (simp add: match_at_def plus_def one_char_simps)
  next
    case True
    obtain more where
      "star_greedy (length cs) (one_char (cls_has fl items)) (c # pre, cs, [])
       = (rev (takeWhile (cls_has fl items) cs) @ c # pre, dropWhile (cls_has fl items) cs, []) # more"
      using star_greedy_run [of cs "length cs" "cls_has fl items" "c # pre" "[]"] by auto
    with True Cons show ?thesis
      by (simp add: match_at_def plus_def one_char_simps remaining_def rmatch_cls_fun
          Suc_diff_le length_dropWhile_le length_run)
  qed
qed


text \<open>Then the scan: between two matches the text is cut, and the characters of a match are
  passed over.\<close>

lemma split_on_runs_nonempty: "split_on_runs P b s \<noteq> []"
  by (induction s arbitrary: b) (auto split: list.splits)

lemma split_on_runs_not_in_run:
  "s = [] \<or> \<not> P (hd s) \<Longrightarrow> split_on_runs P True s = split_on_runs P False s"
  by (cases s) auto

lemma slice_before:
  "i \<le> length pre \<Longrightarrow> slice i (length pre) (rev pre @ rest) = drop i (rev pre)"
  by (simp add: slice_def slice_list_def)

lemma slice_step:
  "i \<le> length pre \<Longrightarrow>
   slice i (Suc (length pre)) (rev pre @ c # cs) = slice i (length pre) (rev pre @ c # cs) @ [c]"
  by (simp add: slice_def slice_list_def Suc_diff_le)

lemma split_scan:
  fixes fl items
  defines "P \<equiv> cls_has fl items" and "r \<equiv> plus (Cls items)"
  shows
  "(\<forall>i \<le> length pre.
      split_go i (rev pre @ rest) (finditer_go fl r 0 (length pre) pre rest)
      = (case split_on_runs P False rest of [] \<Rightarrow> []
         | f # fs \<Rightarrow> (slice i (length pre) (rev pre @ rest) @ f) # fs))
   \<and> split_go (length pre + length (takeWhile P rest)) (rev pre @ rest)
        (finditer_go fl r (length (takeWhile P rest)) (length pre) pre rest)
      = split_on_runs P True rest"
proof (induction rest arbitrary: pre)
  case Nil
  show ?case
    by (simp add: r_def match_at_plus_cls slice_def slice_list_def)
next
  case (Cons c cs)
  have IH_A: "split_go i (rev (c # pre) @ cs) (finditer_go fl r 0 (length (c # pre)) (c # pre) cs)
      = (case split_on_runs P False cs of [] \<Rightarrow> []
         | f # fs \<Rightarrow> (slice i (length (c # pre)) (rev (c # pre) @ cs) @ f) # fs)"
    if "i \<le> length (c # pre)" for i
    using Cons [of "c # pre"] that by blast
  have IH_B: "split_go (length (c # pre) + length (takeWhile P cs)) (rev (c # pre) @ cs)
        (finditer_go fl r (length (takeWhile P cs)) (length (c # pre)) (c # pre) cs)
      = split_on_runs P True cs"
    using Cons [of "c # pre"] by blast
  have A: "split_go i (rev pre @ c # cs) (finditer_go fl r 0 (length pre) pre (c # cs))
      = (case split_on_runs P False (c # cs) of [] \<Rightarrow> []
         | f # fs \<Rightarrow> (slice i (length pre) (rev pre @ c # cs) @ f) # fs)"
    if i: "i \<le> length pre" for i
  proof (cases "P c")
    case False
    obtain f fs where ffs: "split_on_runs P False cs = f # fs"
      using split_on_runs_nonempty [of P False cs] by (cases "split_on_runs P False cs") auto
    from False have "finditer_go fl r 0 (length pre) pre (c # cs)
        = finditer_go fl r 0 (length (c # pre)) (c # pre) cs"
      by (simp add: r_def P_def match_at_plus_cls)
    with IH_A [of i] i ffs False show ?thesis
      by (simp add: slice_step)
  next
    case True
    from True have "finditer_go fl r 0 (length pre) pre (c # cs)
        = (length pre, length pre + Suc (length (takeWhile P cs)), [])
          # finditer_go fl r (length (takeWhile P cs)) (length (c # pre)) (c # pre) cs"
      by (simp add: r_def P_def match_at_plus_cls)
    with IH_B True show ?thesis by simp
  qed
  have B: "split_go (length pre + length (takeWhile P (c # cs))) (rev pre @ c # cs)
        (finditer_go fl r (length (takeWhile P (c # cs))) (length pre) pre (c # cs))
      = split_on_runs P True (c # cs)"
  proof (cases "P c")
    case True
    with IH_B show ?thesis by simp
  next
    case False
    then have "split_on_runs P True (c # cs) = split_on_runs P False (c # cs)"
      by (intro split_on_runs_not_in_run) simp
    moreover obtain f fs where "split_on_runs P False (c # cs) = f # fs"
      using split_on_runs_nonempty [of P False "c # cs"]
      by (cases "split_on_runs P False (c # cs)") auto
    ultimately show ?thesis using A [of "length pre"] False
      by (simp add: slice_def slice_list_def)
  qed
  from A B show ?case by blast
qed

lemma cls_end: "cls_has no_flags [CChar CHR ''.'', CChar CHR ''!'', CChar CHR ''?''] = is_sentence_end"
  by (rule ext) (simp add: cls_has_def no_flags_def is_sentence_end_def)

lemma re_split_sentence_end:
  "re_split no_flags sentence_end s = split_on_runs is_sentence_end False s"
proof -
  obtain f fs where ffs: "split_on_runs is_sentence_end False s = f # fs"
    using split_on_runs_nonempty [of is_sentence_end False s]
    by (cases "split_on_runs is_sentence_end False s") auto
  from split_scan [of "[]" s no_flags "[CChar CHR ''.'', CChar CHR ''!'', CChar CHR ''?'']"] ffs
  show ?thesis
    by (simp add: cls_end sentence_end_def end_cls_def re_split_def re_finditer_def
        slice_def slice_list_def)
qed

lemma split_on_runs_no_separator:
  "f \<in> set (split_on_runs P b s) \<Longrightarrow> c \<in> set f \<Longrightarrow> \<not> P c"
proof (induction s arbitrary: b f)
  case Nil
  then show ?case by simp
next
  case (Cons x xs)
  show ?case
  proof (cases "P x")
    case True
    with Cons show ?thesis by (auto split: if_splits)
  next
    case False
    obtain g gs where g: "split_on_runs P False xs = g # gs"
      using split_on_runs_nonempty [of P False xs] by (cases "split_on_runs P False xs") auto
    with False Cons.prems have "f = x # g \<or> f \<in> set gs" by simp
    then show ?thesis
    proof
      assume "f = x # g"
      with Cons.prems(2) have "c = x \<or> c \<in> set g" by simp
      with False Cons.IH [of g False] g show ?thesis by auto
    next
      assume "f \<in> set gs"
      with Cons.IH [of f False] g Cons.prems(2) show ?thesis by simp
    qed
  qed
qed

lemma split_on_runs_concat:
  "concat (split_on_runs P b s) = filter (\<lambda>c. \<not> P c) s"
proof (induction s arbitrary: b)
  case Nil
  then show ?case by simp
next
  case (Cons x xs)
  obtain g gs where g: "split_on_runs P False xs = g # gs"
    using split_on_runs_nonempty [of P False xs] by (cases "split_on_runs P False xs") auto
  with Cons [of False] Cons [of True] show ?case by auto
qed

lemma sentences_loop_filter:
  "sentences_loop acc xs = acc @ filter (\<lambda>s. 10 < length s) (map str_strip xs)"
  by (induction xs arbitrary: acc) (simp_all add: Let_def)

text \<open>
  Claim C4, amended. The text is split on the maximal runs of \<open>.\<close>, \<open>!\<close>, \<open>?\<close>, and the
  sentence list is the list of the fragments, each trimmed, in scan order, without the
  fragments of 10 characters or fewer: a trimmed fragment is kept exactly when it is longer
  than 10 characters.
\<close>

theorem sentences_longer_than_ten:
  "re_split no_flags sentence_end txt = split_on_runs is_sentence_end False txt
   \<and> extract_sentences txt =
       filter (\<lambda>s. 10 < length s) (map str_strip (split_on_runs is_sentence_end False txt))"
  by (simp add: extract_sentences_def sentences_loop_filter re_split_sentence_end)

lemma split_ten: "re_split no_flags sentence_end ''abcdefghij.'' = [''abcdefghij'', []]"
  by code_simp

lemma strip_nil: "str_strip [] = []"
  by (simp add: str_strip_def)

lemma strip_ten: "str_strip ''abcdefghij'' = ''abcdefghij''"
  by code_simp

text \<open>
  Claim C4 as stated fails on a fragment of exactly 10 characters: \<open>abcdefghij.\<close> splits
  into \<open>abcdefghij\<close> and the empty rest, and the sentence list does not hold the former.
\<close>

theorem ten_character_fragment_dropped:
  "re_split no_flags sentence_end ''abcdefghij.'' = [''abcdefghij'', []]
   \<and> str_strip ''abcdefghij'' = ''abcdefghij''
   \<and> length (str_strip ''abcdefghij'') \<ge> 10
   \<and> str_strip ''abcdefghij'' \<notin> set (extract_sentences ''abcdefghij.'')"
  by (simp add: extract_sentences_def sentences_loop_filter split_ten strip_ten strip_nil)

section \<open>Speakers of Scenario 6\<close>

lemma scenario_6_strip: "str_strip scenario_6 = scenario_6"
  by code_simp

lemma scenario_6_nonempty: "scenario_6 \<noteq> []"
  by (simp add: scenario_6_def)

lemma scenario_6_alpha: "re_search no_flags alpha_cls scenario_6"
  by code_simp

lemma scenario_6_clean: "clean_text scenario_6 = scenario_6_cleaned"
  by code_simp

lemma scenario_6_speakers: "extract_speakers scenario_6_cleaned = [''John'']"
  by code_simp

text \<open>Run on the raw three lines, the speaker extraction does find both names.\<close>

lemma scenario_6_lines: "extract_speakers scenario_6 = [''John'', ''Mary'']"
  by code_simp

text \<open>
  Claim C1. \<open>process\<close> extracts the speakers from the cleaned text, in which every run of
  whitespace, newlines included, has become one space. The cleaned text is a single line, only
  its start can carry a label, and the speaker list of Scenario 6 is \<open>John\<close> alone.
\<close>

theorem scenario_6_speakers_only_john:
  "map_sum id speakers (fst (process (PStr scenario_6) lg)) = Inr [''John'']"
proof -
  obtain v where v: "validate_transcript (PStr scenario_6) = Inr v" "is_valid v"
    "transcript v = scenario_6"
    using validate_str_valid [of scenario_6] scenario_6_alpha scenario_6_nonempty
    by (auto simp: scenario_6_strip)
  then show ?thesis
    by (simp add: process_def Let_def scenario_6_clean scenario_6_speakers)
qed

section \<open>Worked examples\<close>

text \<open>A text with one problem sentence written twice, in lower and in upper case: both are
  candidates, and the second is dropped as a duplicate of the first.\<close>

lemma duplicate_example_strip: "str_strip duplicate_example = duplicate_example"
  by code_simp

lemma duplicate_example_alpha: "re_search no_flags alpha_cls duplicate_example"
  by code_simp

lemma duplicate_example_valid:
  "\<exists>v. validate_transcript (PStr duplicate_example) = Inr v \<and> is_valid v"
proof -
  have "duplicate_example \<noteq> []" by (simp add: duplicate_example_def)
  with validate_str_valid [of duplicate_example] duplicate_example_alpha show ?thesis
    by (auto simp: duplicate_example_strip)
qed

lemma duplicate_example_candidates:
  "candidate_insights duplicate_example PROBLEM =
     [\<lparr>i_text = ''problem a b.'', i_type = PROBLEM, i_confidence = 1 / 5,
       i_category = ''technical'', i_keywords = [''problem''], i_context = [],
       i_priority = ''medium''\<rparr>,
      \<lparr>i_text = ''PROBLEM a b.'', i_type = PROBLEM, i_confidence = 1 / 5,
       i_category = ''technical'', i_keywords = [''problem''], i_context = [],
       i_priority = ''medium''\<rparr>]"
  by code_simp

lemma duplicate_example_by_type:
  "extract_insights_by_type duplicate_example PROBLEM =
     [\<lparr>i_text = ''problem a b.'', i_type = PROBLEM, i_confidence = 1 / 5,
       i_category = ''technical'', i_keywords = [''problem''], i_context = [],
       i_priority = ''medium''\<rparr>]"
  by code_simp

lemma duplicate_example_report:
  "extract_insights (PStr duplicate_example) [] =
     (Inr (insights_empty_result
             (Some (''Extraction error: '' @ exn_str (AttributeError ''str'' ''value'')))),
      [LogError ''Insight extraction error'' (exn_str (AttributeError ''str'' ''value''))])"
  using duplicate_example_valid extract_insights_valid [of "PStr duplicate_example" _ "[]"]
  by auto

lemma duplicate_example_analyze:
  "\<exists>r lg. analyze (SentimentAnalyzer_init True True) const_libs (PStr duplicate_example) []
           = (Inr r, lg)"
  using duplicate_example_valid
  by (auto simp: analyze_def Let_def sa_extract_sentences_def const_libs_def split: prod.splits)

theorem confidences_in_unit_interval_witness:
  "\<exists>r lg rep lg'.
     analyze (SentimentAnalyzer_init True True) const_libs (PStr duplicate_example) [] = (Inr r, lg)
   \<and> extract_insights (PStr duplicate_example) [] = (Inr rep, lg')
   \<and> 0 \<le> result_confidence r \<and> result_confidence r \<le> 1
   \<and> result_confidence r = os_confidence (calculate_overall_sentiment (sentences r))
   \<and> list_all (\<lambda>s. 0 \<le> confidence s \<and> confidence s \<le> 1 \<and> confidence s = \<bar>polarity s\<bar>)
        (sentences r)
   \<and> map i_confidence (extract_insights_by_type duplicate_example PROBLEM) = [1 / 5]
   \<and> list_all (\<lambda>i. 0 \<le> i_confidence i \<and> i_confidence i \<le> 1
                  \<and> i_confidence i
                      = calculate_insight_confidence (i_text i) (initialize_patterns PROBLEM))
        (extract_insights_by_type duplicate_example PROBLEM)
   \<and> 0 \<le> extraction_confidence (metadata rep) \<and> extraction_confidence (metadata rep) \<le> 1
   \<and> list_all (\<lambda>(k, ds). list_all (\<lambda>d. 0 \<le> d_confidence d \<and> d_confidence d \<le> 1) ds)
        (detailed_insights rep)"
proof -
  obtain r lg where a: "analyze (SentimentAnalyzer_init True True) const_libs
      (PStr duplicate_example) [] = (Inr r, lg)"
    using duplicate_example_analyze by blast
  obtain rep lg' where e: "extract_insights (PStr duplicate_example) [] = (Inr rep, lg')"
    using duplicate_example_report by blast
  have v: "\<bar>compound v\<bar> \<le> 1" if "polarity_scores const_libs s = Inr v" for s v
    using that by (auto simp: const_libs_def)
  have b: "\<bar>tb_polarity t\<bar> \<le> 1" if "blob_sentiment const_libs s = Inr t" for s t
    using that by (auto simp: const_libs_def)
  have main: "(analyze (SentimentAnalyzer_init True True) const_libs (PStr duplicate_example) []
           = (Inr r, lg) \<longrightarrow>
            0 \<le> result_confidence r \<and> result_confidence r \<le> 1
          \<and> result_confidence r = os_confidence (calculate_overall_sentiment (sentences r))
          \<and> list_all (\<lambda>s. 0 \<le> confidence s \<and> confidence s \<le> 1 \<and> confidence s = \<bar>polarity s\<bar>)
               (sentences r))
       \<and> list_all (\<lambda>i. 0 \<le> i_confidence i \<and> i_confidence i \<le> 1
                      \<and> i_confidence i
                          = calculate_insight_confidence (i_text i) (initialize_patterns PROBLEM))
            (extract_insights_by_type duplicate_example PROBLEM)
       \<and> (extract_insights (PStr duplicate_example) [] = (Inr rep, lg') \<longrightarrow>
            0 \<le> extraction_confidence (metadata rep) \<and> extraction_confidence (metadata rep) \<le> 1
          \<and> list_all (\<lambda>(k, ds). list_all (\<lambda>d. 0 \<le> d_confidence d \<and> d_confidence d \<le> 1) ds)
               (detailed_insights rep))"
    by (rule confidences_in_unit_interval [where L = const_libs]) (use v b in auto)
  have m: "map i_confidence (extract_insights_by_type duplicate_example PROBLEM) = [1 / 5]"
    by (simp add: duplicate_example_by_type)
  from main a have p1: "0 \<le> result_confidence r" "result_confidence r \<le> 1"
    "result_confidence r = os_confidence (calculate_overall_sentiment (sentences r))"
    "list_all (\<lambda>s. 0 \<le> confidence s \<and> confidence s \<le> 1 \<and> confidence s = \<bar>polarity s\<bar>)
       (sentences r)"
    by blast+
  from main have p2: "list_all (\<lambda>i. 0 \<le> i_confidence i \<and> i_confidence i \<le> 1
                      \<and> i_confidence i
                          = calculate_insight_confidence (i_text i) (initialize_patterns PROBLEM))
            (extract_insights_by_type duplicate_example PROBLEM)"
    by blast
  from main e have p3: "0 \<le> extraction_confidence (metadata rep)"
    "extraction_confidence (metadata rep) \<le> 1"
    "list_all (\<lambda>(k, ds). list_all (\<lambda>d. 0 \<le> d_confidence d \<and> d_confidence d \<le> 1) ds)
       (detailed_insights rep)"
    by blast+
  show ?thesis
    by (rule exI [where x = r], rule exI [where x = lg], rule exI [where x = rep],
        rule exI [where x = lg'], intro conjI) (fact a e m p1 p2 p3)+
qed

theorem no_case_identical_insights_witness:
  "map i_text (candidate_insights duplicate_example PROBLEM) = [''problem a b.'', ''PROBLEM a b.'']
   \<and> map i_text (extract_insights_by_type duplicate_example PROBLEM) = [''problem a b.'']
   \<and> extract_insights_by_type duplicate_example PROBLEM
       = sort_key (\<lambda>i. - i_confidence i) (keep_first (candidate_insights duplicate_example PROBLEM))
   \<and> distinct (map text_key (extract_insights_by_type duplicate_example PROBLEM))
   \<and> set (map text_key (extract_insights_by_type duplicate_example PROBLEM))
       = set (map text_key (candidate_insights duplicate_example PROBLEM))
   \<and> (\<exists>r lg. extract_insights (PStr duplicate_example) [] = (Inr r, lg)
         \<and> distinct (map str_lower (problems r)) \<and> distinct (map str_lower (solutions r))
         \<and> distinct (map str_lower (action_items r)) \<and> distinct (map str_lower (opportunities r))
         \<and> distinct (map str_lower (risks r)) \<and> distinct (map str_lower (decisions r)))"
proof -
  obtain rep lg' where e: "extract_insights (PStr duplicate_example) [] = (Inr rep, lg')"
    using duplicate_example_report by blast
  have c: "map i_text (candidate_insights duplicate_example PROBLEM)
             = [''problem a b.'', ''PROBLEM a b.'']"
    by (simp add: duplicate_example_candidates)
  have t: "map i_text (extract_insights_by_type duplicate_example PROBLEM) = [''problem a b.'']"
    by (simp add: duplicate_example_by_type)
  from no_case_identical_insights [where doc = duplicate_example and ty = PROBLEM
      and x = "PStr duplicate_example" and lg = "[]" and r = rep and lg' = lg'] e c t
  show ?thesis by blast
qed

end
